theory Spec2Isabelle
  imports Complex_Main "HOL-Library.Sublist"
begin

section \<open>Strings\<close>

text \<open>
  A JavaScript string is modelled as a \<open>string\<close>: each \<open>char\<close> is one code unit in the
  range U+0000 to U+00FF. The character classes below are those of ECMAScript restricted
  to that range: \<open>WhiteSpace\<close> and \<open>LineTerminator\<close> (the class \<open>\s\<close> of a regular expression
  and the characters removed by \<open>trim\<close>) and the line terminators that \<open>.\<close> does not match.
\<close>

definition isLineTerminator :: "char \<Rightarrow> bool" where
  "isLineTerminator c = (c = CHR 0x0A \<or> c = CHR 0x0D)"

definition isWhiteSpace :: "char \<Rightarrow> bool" where
  "isWhiteSpace c =
     (c = CHR 0x09 \<or> c = CHR 0x0A \<or> c = CHR 0x0B \<or> c = CHR 0x0C \<or> c = CHR 0x0D \<or>
      c = CHR 0x20 \<or> c = CHR 0xA0)"

text \<open>\<open>String.prototype.trim\<close>\<close>

definition trim :: "string \<Rightarrow> string" where
  "trim s = rev (dropWhile isWhiteSpace (rev (dropWhile isWhiteSpace s)))"

text \<open>\<open>String.prototype.toLowerCase\<close>: the letters A to Z and the capital letters of
  U+00C0 to U+00DE (all but the multiplication sign U+00D7) move up by 32.\<close>

definition toLowerCase_char :: "char \<Rightarrow> char" where
  "toLowerCase_char c =
     (let n = (of_char c :: nat) in
      if (65 \<le> n \<and> n \<le> 90) \<or> (192 \<le> n \<and> n \<le> 222 \<and> n \<noteq> 215) then char_of (n + 32) else c)"

definition toLowerCase :: "string \<Rightarrow> string" where
  "toLowerCase s = map toLowerCase_char s"

text \<open>\<open>s.includes(t)\<close>: the search of \<open>t\<close> in \<open>s\<close> at the positions 0, 1, 2, ...\<close>

fun includes_str :: "string \<Rightarrow> string \<Rightarrow> bool" where
  "includes_str [] t = (t = [])"
| "includes_str (c # cs) t = (take (length t) (c # cs) = t \<or> includes_str cs t)"

text \<open>\<open>String(n)\<close> for an integer \<open>n\<close>: its decimal digits, after a minus sign when it is
  negative.\<close>

fun digits :: "nat \<Rightarrow> string" where
  "digits n = (if n < 10 then [char_of (48 + n)] else digits (n div 10) @ [char_of (48 + n mod 10)])"

declare digits.simps [simp del]

definition NumberToString :: "int \<Rightarrow> string" where
  "NumberToString i = (if i < 0 then CHR ''-'' # digits (nat (- i)) else digits (nat i))"

text \<open>\<open>s.padStart(maxLength, fill)\<close> for a filler of one character.\<close>

definition padStart :: "nat \<Rightarrow> char \<Rightarrow> string \<Rightarrow> string" where
  "padStart maxLength fill s =
     (if maxLength \<le> length s then s else replicate (maxLength - length s) fill @ s)"

section \<open>Product code utilities\<close>

record product =
  name :: string
  code :: string

text \<open>
  The regular expression \<open>/^(.+?)\s*\[([^\]]+)\]$/\<close> of \<open>parseProductString\<close>, as the
  backtracking search it stands for. \<open>first_some\<close> tries the candidates in the order given and
  keeps the first that succeeds. The lazy group \<open>(.+?)\<close> tries the lengths 1, 2, ... up to the
  first line terminator; the greedy \<open>\s*\<close> and \<open>[^\]]+\<close> try the longest run first, then shorter
  ones; \<open>$\<close> asks for the end of the input (there is no \<open>m\<close> flag).
\<close>

fun first_some :: "('a \<Rightarrow> 'b option) \<Rightarrow> 'a list \<Rightarrow> 'b option" where
  "first_some f [] = None"
| "first_some f (x # xs) = (case f x of Some y \<Rightarrow> Some y | None \<Rightarrow> first_some f xs)"

text \<open>\<open>([^\]]+)\]$\<close>\<close>

definition match_code :: "string \<Rightarrow> string option" where
  "match_code r =
     first_some (\<lambda>n. if drop n r = '']'' then Some (take n r) else None)
       (rev [1..<Suc (length (takeWhile (\<lambda>c. c \<noteq> CHR '']'') r))])"

text \<open>\<open>\[([^\]]+)\]$\<close>\<close>

definition match_bracket :: "string \<Rightarrow> string option" where
  "match_bracket r =
     (case r of [] \<Rightarrow> None | c # r' \<Rightarrow> if c = CHR ''['' then match_code r' else None)"

text \<open>\<open>\s*\[([^\]]+)\]$\<close>\<close>

definition match_space :: "string \<Rightarrow> string option" where
  "match_space r =
     first_some (\<lambda>n. match_bracket (drop n r))
       (rev [0..<Suc (length (takeWhile isWhiteSpace r))])"

text \<open>The whole expression: the two groups of the match, or \<open>None\<close> when there is none.\<close>

definition match_product :: "string \<Rightarrow> (string \<times> string) option" where
  "match_product s =
     first_some (\<lambda>k. map_option (\<lambda>c. (take k s, c)) (match_space (drop k s)))
       [1..<Suc (length (takeWhile (\<lambda>c. \<not> isLineTerminator c) s))]"

text \<open>The argument \<open>None\<close> is \<open>null\<close> or \<open>undefined\<close>; an empty \<open>code\<close> is falsy.\<close>

definition formatProductWithCode :: "product option \<Rightarrow> string" where
  "formatProductWithCode product =
     (case product of
        None \<Rightarrow> []
      | Some p \<Rightarrow>
          if product.code p \<noteq> [] then product.name p @ '' ['' @ product.code p @ '']''
          else product.name p)"

definition parseProductString :: "string option \<Rightarrow> product" where
  "parseProductString productString =
     (case productString of
        None \<Rightarrow> \<lparr>product.name = [], code = []\<rparr>
      | Some s \<Rightarrow>
          if s = [] then \<lparr>product.name = [], code = []\<rparr>
          else (case match_product s of
                  Some (g1, g2) \<Rightarrow> \<lparr>product.name = trim g1, code = trim g2\<rparr>
                | None \<Rightarrow> \<lparr>product.name = trim s, code = []\<rparr>))"

section \<open>Date utilities\<close>

subsection \<open>Time values\<close>

text \<open>
  A time value is the milliseconds since the epoch in UTC, an integer. The functions below
  are those of the ECMAScript specification (Time Values and Time Range). The local time
  zone is a fixed offset \<open>tza\<close> in milliseconds, a parameter of every function that reads
  local time. A \<open>Date\<close> holds a time value or, when it is invalid, \<open>NaN\<close>: it is an
  \<open>int option\<close>, \<open>None\<close> for \<open>NaN\<close>. A number that may be \<open>NaN\<close> is an \<open>int option\<close> as well.
\<close>

definition msPerDay :: int where "msPerDay = 86400000"

definition Day :: "int \<Rightarrow> int" where "Day t = t div msPerDay"

definition TimeWithinDay :: "int \<Rightarrow> int" where "TimeWithinDay t = t mod msPerDay"

definition DaysInYear :: "int \<Rightarrow> int" where
  "DaysInYear y =
     (if y mod 4 \<noteq> 0 then 365 else if y mod 100 \<noteq> 0 then 366
      else if y mod 400 \<noteq> 0 then 365 else 366)"

definition DayFromYear :: "int \<Rightarrow> int" where
  "DayFromYear y =
     365 * (y - 1970) + (y - 1969) div 4 - (y - 1901) div 100 + (y - 1601) div 400"

definition TimeFromYear :: "int \<Rightarrow> int" where
  "TimeFromYear y = msPerDay * DayFromYear y"

text \<open>
  The specification defines \<open>YearFromTime(t)\<close> as the largest \<open>y\<close> with
  \<open>TimeFromYear(y) \<le> t\<close>. It is computed here from an estimate that is off by at most one
  year; \<open>YearFromTime_largest\<close> below proves that this is the year of the specification.
\<close>

definition YearFromTime :: "int \<Rightarrow> int" where
  "YearFromTime t =
     (let y = 1970 + (400 * Day t) div 146097 in
      if DayFromYear (y + 1) \<le> Day t then y + 1
      else if Day t < DayFromYear y then y - 1
      else y)"

definition InLeapYear :: "int \<Rightarrow> int" where
  "InLeapYear t = (if DaysInYear (YearFromTime t) = 366 then 1 else 0)"

definition DayWithinYear :: "int \<Rightarrow> int" where
  "DayWithinYear t = Day t - DayFromYear (YearFromTime t)"

definition MonthFromTime :: "int \<Rightarrow> int" where
  "MonthFromTime t =
     (let d = DayWithinYear t; l = InLeapYear t in
      if d < 31 then 0
      else if d < 59 + l then 1
      else if d < 90 + l then 2
      else if d < 120 + l then 3
      else if d < 151 + l then 4
      else if d < 181 + l then 5
      else if d < 212 + l then 6
      else if d < 243 + l then 7
      else if d < 273 + l then 8
      else if d < 304 + l then 9
      else if d < 334 + l then 10
      else 11)"

definition DateFromTime :: "int \<Rightarrow> int" where
  "DateFromTime t =
     (let d = DayWithinYear t; l = InLeapYear t; m = MonthFromTime t in
      if m = 0 then d + 1
      else if m = 1 then d - 30
      else if m = 2 then d - 58 - l
      else if m = 3 then d - 89 - l
      else if m = 4 then d - 119 - l
      else if m = 5 then d - 150 - l
      else if m = 6 then d - 180 - l
      else if m = 7 then d - 211 - l
      else if m = 8 then d - 242 - l
      else if m = 9 then d - 272 - l
      else if m = 10 then d - 303 - l
      else d - 333 - l)"

text \<open>0 is Sunday, 1 is Monday, ..., 6 is Saturday.\<close>

definition WeekDay :: "int \<Rightarrow> int" where "WeekDay t = (Day t + 4) mod 7"

text \<open>
  \<open>MakeDay(year, month, date)\<close>: the day number of the first day of the month (the
  specification finds a time value with that year and month and the date 1), plus
  \<open>date - 1\<close>. A date outside the month moves into the neighbouring months. The day number
  is computed from the year and the month, as the engines do, also for the two months in
  which the range of the time values begins and ends.
\<close>

definition MakeDay :: "int \<Rightarrow> int \<Rightarrow> int \<Rightarrow> int" where
  "MakeDay year month date =
     (let ym = year + month div 12; mn = month mod 12;
          l = (if DaysInYear ym = 366 then 1 else 0);
          first = DayFromYear ym +
            (if mn = 0 then 0 else if mn = 1 then 31 else if mn = 2 then 59 + l
             else if mn = 3 then 90 + l else if mn = 4 then 120 + l
             else if mn = 5 then 151 + l else if mn = 6 then 181 + l
             else if mn = 7 then 212 + l else if mn = 8 then 243 + l
             else if mn = 9 then 273 + l else if mn = 10 then 304 + l else 334 + l)
      in first + date - 1)"

definition MakeDate :: "int \<Rightarrow> int \<Rightarrow> int" where
  "MakeDate day time = day * msPerDay + time"

definition LocalTime :: "int \<Rightarrow> int \<Rightarrow> int" where "LocalTime tza t = t + tza"

definition UTC :: "int \<Rightarrow> int \<Rightarrow> int" where "UTC tza t = t - tza"

text \<open>
  \<open>TimeClip\<close>: a time value lies within 8.64e15 milliseconds (one hundred million days) of the
  epoch; beyond that the result is \<open>NaN\<close>.
\<close>

definition TimeClip :: "int \<Rightarrow> int option" where
  "TimeClip time = (if 8640000000000000 < \<bar>time\<bar> then None else Some time)"

text \<open>\<open>d.setDate(dt)\<close> and \<open>d.setUTCDate(dt)\<close> for a valid date \<open>d\<close> of time value \<open>tv\<close>: the new
  time value of \<open>d\<close>.\<close>

definition setDate :: "int \<Rightarrow> int \<Rightarrow> int \<Rightarrow> int option" where
  "setDate tza tv dt =
     (let t = LocalTime tza tv;
          newDate = MakeDate (MakeDay (YearFromTime t) (MonthFromTime t) dt) (TimeWithinDay t)
      in TimeClip (UTC tza newDate))"

definition setUTCDate :: "int \<Rightarrow> int \<Rightarrow> int option" where
  "setUTCDate tv dt =
     (let newDate = MakeDate (MakeDay (YearFromTime tv) (MonthFromTime tv) dt) (TimeWithinDay tv)
      in TimeClip newDate)"

text \<open>\<open>Date.UTC(year, month, date)\<close>: a year from 0 to 99 stands for 1900 + year.\<close>

definition DateUTC :: "int \<Rightarrow> int \<Rightarrow> int \<Rightarrow> int option" where
  "DateUTC year month date =
     (let yr = (if 0 \<le> year \<and> year \<le> 99 then 1900 + year else year) in
      TimeClip (MakeDate (MakeDay yr month date) 0))"

text \<open>\<open>d.getFullYear()\<close>\<close>

definition getFullYear :: "int \<Rightarrow> int option \<Rightarrow> int option" where
  "getFullYear tza d =
     (case d of None \<Rightarrow> None | Some tv \<Rightarrow> Some (YearFromTime (LocalTime tza tv)))"

text \<open>\<open>String(x)\<close> for a number \<open>x\<close> that is an integer or \<open>NaN\<close>.\<close>

definition ToString :: "int option \<Rightarrow> string" where
  "ToString x = (case x of None \<Rightarrow> ''NaN'' | Some i \<Rightarrow> NumberToString i)"

subsection \<open>Weeks\<close>

text \<open>
  On an invalid date \<open>getDay\<close> and \<open>getDate\<close> give \<open>NaN\<close>, so \<open>diff\<close> is \<open>NaN\<close>, and \<open>setDate\<close>
  leaves the date invalid.
\<close>

definition getMondayOfWeek :: "int \<Rightarrow> int option \<Rightarrow> int option" where
  "getMondayOfWeek tza date =
     (case date of
        None \<Rightarrow> None
      | Some d \<Rightarrow>
          (let day = WeekDay (LocalTime tza d);
               diff = DateFromTime (LocalTime tza d) - day + (if day = 0 then - 6 else 1)
           in setDate tza d diff))"

text \<open>
  As soon as one of the dates is invalid, every number computed from it is \<open>NaN\<close>, and so is
  the result. Otherwise the quotient \<open>(d - yearStart) / 86400000\<close> is a whole number of days,
  and dividing a whole number of that size by 7 is exact enough in floating point for
  \<open>Math.ceil\<close> to give the ceiling of the exact quotient, which is what the model takes.
\<close>

definition getWeekNumber :: "int \<Rightarrow> int option \<Rightarrow> int option" where
  "getWeekNumber tza date =
     (case date of
        None \<Rightarrow> None
      | Some tv \<Rightarrow>
          (let t = LocalTime tza tv in
           case DateUTC (YearFromTime t) (MonthFromTime t) (DateFromTime t) of
             None \<Rightarrow> None
           | Some d \<Rightarrow>
               (let dayNum = (if WeekDay d = 0 then 7 else WeekDay d) in
                case setUTCDate d (DateFromTime d + 4 - dayNum) of
                  None \<Rightarrow> None
                | Some d \<Rightarrow>
                    (case DateUTC (YearFromTime d) 0 1 of
                       None \<Rightarrow> None
                     | Some yearStart \<Rightarrow>
                         Some \<lceil>(real_of_int (d - yearStart) / 86400000 + 1) / 7\<rceil>))))"

definition getWeekIdentifier :: "int \<Rightarrow> int option \<Rightarrow> string" where
  "getWeekIdentifier tza date =
     (let monday = getMondayOfWeek tza date;
          weekNum = getWeekNumber tza monday
      in ToString (getFullYear tza monday) @ ''-W'' @ padStart 2 (CHR ''0'') (ToString weekNum))"

section \<open>Customer utilities\<close>

text \<open>
  A customer is a JavaScript object used as a struct. The fields the code reads are record
  fields; a field that may be absent (\<open>undefined\<close>, \<open>null\<close>) is an \<open>option\<close>. Every other own
  property of the object lives in the extension part of the record, so that the spread
  \<open>{ ...customer }\<close> is the record itself and the assignment \<open>normalized.addresses = [...]\<close>
  is a record update. The field \<open>addresses\<close> is \<open>Some as\<close> exactly when
  \<open>Array.isArray(customer.addresses)\<close>.
\<close>

record address =
  label :: string
  street :: string
  city :: string
  state :: string
  zip :: string
  country :: string

record customer =
  name :: string
  street :: "string option"
  city :: "string option"
  state :: "string option"
  zip :: "string option"
  country :: "string option"
  addresses :: "address list option"

text \<open>\<open>x || ""\<close> for a field that is a string or absent: a falsy value (absent, or the empty
  string) gives the empty string, any other string is kept.\<close>

definition or_empty :: "string option \<Rightarrow> string" where
  "or_empty x = (case x of None \<Rightarrow> [] | Some s \<Rightarrow> (if s = [] then [] else s))"

text \<open>\<open>Array.isArray(customer.addresses) && customer.addresses.length > 0\<close>\<close>

definition has_addresses :: "'a customer_scheme \<Rightarrow> bool" where
  "has_addresses c = (case addresses c of None \<Rightarrow> False | Some as \<Rightarrow> 0 < length as)"

text \<open>The argument is \<open>None\<close> for \<open>null\<close> or \<open>undefined\<close>; the result \<open>None\<close> is \<open>null\<close>.\<close>

definition normalizeCustomer :: "'a customer_scheme option \<Rightarrow> 'a customer_scheme option" where
  "normalizeCustomer cust =
     (case cust of
        None \<Rightarrow> None
      | Some c \<Rightarrow>
          if has_addresses c then Some c
          else Some (c\<lparr>addresses := Some
                 [\<lparr>label = ''Primary'',
                   address.street = or_empty (customer.street c),
                   address.city = or_empty (customer.city c),
                   address.state = or_empty (customer.state c),
                   address.zip = or_empty (customer.zip c),
                   address.country = or_empty (customer.country c)\<rparr>]\<rparr>))"

section \<open>The browser's local storage\<close>

text \<open>
  \<open>localStorage\<close> holds three keys. Each is absent (\<open>None\<close>) or holds the value that
  \<open>JSON.parse\<close> gives for its text: a list of customers, a list of products, an object from
  week identifiers to lists of entries. The entries are opaque. The store holds well-formed
  values: \<open>getItem\<close> and \<open>JSON.parse\<close> do not throw, so the \<open>catch\<close> branch of
  \<open>getLocalStorage\<close> is not taken. A write can fail: \<open>localStorage.setItem\<close> throws when the
  store refuses the new text (the quota is exceeded). \<open>setLocalStorage\<close> catches the exception
  and returns \<open>false\<close>, so whether the store accepts the write is a parameter of the functions
  that write through it. \<open>saveCustomer\<close> calls \<open>setItem\<close> outside of any \<open>try\<close>; its model is that
  of a write that the store accepts.
\<close>

record ('a, 'e) localStorage =
  customerDatabase :: "'a customer_scheme list option"
  productDatabase :: "product list option"
  callsheets :: "(string \<rightharpoonup> 'e list) option"

text \<open>\<open>getLocalStorage(key, defaultValue)\<close>, given the item stored under the key.\<close>

definition getLocalStorage :: "'v option \<Rightarrow> 'v \<Rightarrow> 'v" where
  "getLocalStorage item defaultValue = (case item of None \<Rightarrow> defaultValue | Some v \<Rightarrow> v)"

text \<open>The outcome of a statement that may throw.\<close>

datatype 'a completion = Normal 'a | Throw

text \<open>\<open>setLocalStorage(key, value)\<close>, given \<open>setItem\<close> for the key: the result and the new
  store. When \<open>setItem\<close> throws, the \<open>catch\<close> branch returns \<open>false\<close> and the store is as before.\<close>

definition setLocalStorage ::
    "('v \<Rightarrow> ('a, 'e) localStorage \<Rightarrow> ('a, 'e) localStorage completion) \<Rightarrow> 'v \<Rightarrow>
     ('a, 'e) localStorage \<Rightarrow> bool \<times> ('a, 'e) localStorage" where
  "setLocalStorage setItem v ls =
     (case setItem v ls of Normal ls' \<Rightarrow> (True, ls') | Throw \<Rightarrow> (False, ls))"

subsection \<open>Customers\<close>

definition getAllCustomers :: "('a, 'e) localStorage \<Rightarrow> 'a customer_scheme list" where
  "getAllCustomers ls = getLocalStorage (customerDatabase ls) []"

text \<open>\<open>Array.prototype.findIndex\<close>: the loop over the indices \<open>k\<close>, \<open>k + 1\<close>, ...\<close>

fun findIndexFrom :: "('a \<Rightarrow> bool) \<Rightarrow> 'a list \<Rightarrow> int \<Rightarrow> int" where
  "findIndexFrom P [] k = - 1"
| "findIndexFrom P (x # xs) k = (if P x then k else findIndexFrom P xs (k + 1))"

definition findIndex :: "('a \<Rightarrow> bool) \<Rightarrow> 'a list \<Rightarrow> int" where
  "findIndex P xs = findIndexFrom P xs 0"

text \<open>\<open>saveCustomer\<close> returns its result and the new store.\<close>

definition saveCustomer ::
    "'a customer_scheme \<Rightarrow> ('a, 'e) localStorage \<Rightarrow> bool \<times> ('a, 'e) localStorage" where
  "saveCustomer cust ls =
     (let customers = (case customerDatabase ls of None \<Rightarrow> [] | Some cs \<Rightarrow> cs);
          existingIndex = findIndex (\<lambda>c. customer.name c = customer.name cust) customers;
          customers' = (if existingIndex \<noteq> - 1 then customers[nat existingIndex := cust]
                        else customers @ [cust])
      in (True, ls\<lparr>customerDatabase := Some customers'\<rparr>))"

subsection \<open>Products\<close>

definition getAllProducts :: "('a, 'e) localStorage \<Rightarrow> product list" where
  "getAllProducts ls = getLocalStorage (productDatabase ls) []"

definition searchProducts :: "string \<Rightarrow> ('a, 'e) localStorage \<Rightarrow> product list" where
  "searchProducts query ls =
     (if query = [] then []
      else let products = getAllProducts ls; searchTerm = toLowerCase query in
        filter (\<lambda>p. includes_str (toLowerCase (product.name p)) searchTerm \<or>
                    (product.code p \<noteq> [] \<and> includes_str (toLowerCase (product.code p)) searchTerm))
          products)"

subsection \<open>Callsheets\<close>

text \<open>\<open>localStorage.setItem("callsheets", JSON.stringify(v))\<close>, on a store that accepts the
  write or refuses it.\<close>

definition setItem_callsheets ::
    "bool \<Rightarrow> (string \<rightharpoonup> 'e list) \<Rightarrow> ('a, 'e) localStorage \<Rightarrow> ('a, 'e) localStorage completion" where
  "setItem_callsheets accepted v ls =
     (if accepted then Normal (ls\<lparr>callsheets := Some v\<rparr>) else Throw)"

definition getAllCallsheets :: "('a, 'e) localStorage \<Rightarrow> (string \<rightharpoonup> 'e list)" where
  "getAllCallsheets ls = getLocalStorage (callsheets ls) Map.empty"

text \<open>
  The values that \<open>callsheets[weekId]\<close> can give. The object that \<open>JSON.parse\<close> or \<open>{}\<close> creates
  has its own properties, the stored lists, and inherits the properties of
  \<open>Object.prototype\<close>: functions, each with its \<open>length\<close>, and \<open>__proto__\<close>, which reads as
  \<open>Object.prototype\<close> itself, an object with no \<open>length\<close>.
\<close>

datatype 'e jsvalue = Array "'e list" | Function nat | Object

definition Object_prototype :: "string \<Rightarrow> 'e jsvalue option" where
  "Object_prototype p =
     map_of
       [(''constructor'', Function 1),
        (''hasOwnProperty'', Function 1),
        (''isPrototypeOf'', Function 1),
        (''propertyIsEnumerable'', Function 1),
        (''toLocaleString'', Function 0),
        (''toString'', Function 0),
        (''valueOf'', Function 0),
        (''__defineGetter__'', Function 2),
        (''__defineSetter__'', Function 2),
        (''__lookupGetter__'', Function 1),
        (''__lookupSetter__'', Function 1),
        (''__proto__'', Object)] p"

text \<open>\<open>callsheets[weekId] || []\<close>: an own property first, then an inherited one; every such
  value is truthy. Without either the value is \<open>undefined\<close> and the result is \<open>[]\<close>.\<close>

definition getCallsheetForWeek :: "string \<Rightarrow> ('a, 'e) localStorage \<Rightarrow> 'e jsvalue" where
  "getCallsheetForWeek weekId ls =
     (let sheets = getAllCallsheets ls in
      case sheets weekId of
        Some entries \<Rightarrow> Array entries
      | None \<Rightarrow> (case Object_prototype weekId of Some v \<Rightarrow> v | None \<Rightarrow> Array []))"

text \<open>
  \<open>callsheets[weekId] = entries\<close> adds or replaces the own property \<open>weekId\<close>. The one exception
  is the name \<open>__proto__\<close> on an object with no own property of that name: the assignment
  then sets the prototype of the object, and \<open>JSON.stringify\<close> writes the own properties only.
\<close>

definition saveCallsheetForWeek ::
    "bool \<Rightarrow> string \<Rightarrow> 'e list \<Rightarrow> ('a, 'e) localStorage \<Rightarrow> bool \<times> ('a, 'e) localStorage" where
  "saveCallsheetForWeek accepted weekId entries ls =
     (let sheets = getAllCallsheets ls;
          sheets = (if weekId = ''__proto__'' \<and> sheets weekId = None then sheets
                    else sheets(weekId \<mapsto> entries))
      in setLocalStorage (setItem_callsheets accepted) sheets ls)"

text \<open>\<open>entries.length\<close>, \<open>None\<close> for \<open>undefined\<close>.\<close>

fun length_of :: "'e jsvalue \<Rightarrow> int option" where
  "length_of (Array entries) = Some (int (length entries))"
| "length_of (Function n) = Some (int n)"
| "length_of Object = None"

text \<open>\<open>entries.splice(index, 1)\<close> for an index within the list.\<close>

definition splice1 :: "'e list \<Rightarrow> nat \<Rightarrow> 'e list" where
  "splice1 entries i = take i entries @ drop (Suc i) entries"

text \<open>
  \<open>removeCallsheetEntry\<close> returns its result and the new store, or throws. A comparison with
  \<open>undefined\<close> is false. Only an array has the method \<open>splice\<close>: on a function the call
  \<open>entries.splice(index, 1)\<close> throws a \<open>TypeError\<close>, which nothing catches.
\<close>

datatype error = TypeError

definition removeCallsheetEntry ::
    "bool \<Rightarrow> string \<Rightarrow> int \<Rightarrow> ('a, 'e) localStorage \<Rightarrow> error + bool \<times> ('a, 'e) localStorage" where
  "removeCallsheetEntry accepted weekId index ls =
     (let entries = getCallsheetForWeek weekId ls in
      if 0 \<le> index \<and> (case length_of entries of None \<Rightarrow> False | Some n \<Rightarrow> index < n)
      then (case entries of
              Array es \<Rightarrow> Inr (saveCallsheetForWeek accepted weekId (splice1 es (nat index)) ls)
            | _ \<Rightarrow> Inl TypeError)
      else Inr (False, ls))"

section \<open>Notions used to state the properties\<close>

text \<open>Every \<open>[\<close> of the string is followed, later in the string, by a \<open>]\<close>.\<close>

fun closed_brackets :: "string \<Rightarrow> bool" where
  "closed_brackets [] = True"
| "closed_brackets (c # cs) = ((c = CHR ''['' \<longrightarrow> CHR '']'' \<in> set cs) \<and> closed_brackets cs)"

text \<open>The pattern \<open>^\d{4}-W\d{2}$\<close>.\<close>

definition isDigit :: "char \<Rightarrow> bool" where
  "isDigit c = (48 \<le> (of_char c :: nat) \<and> (of_char c :: nat) \<le> 57)"

definition week_pattern :: "string \<Rightarrow> bool" where
  "week_pattern s =
     (length s = 8 \<and> list_all isDigit (take 4 s) \<and> s ! 4 = CHR ''-'' \<and> s ! 5 = CHR ''W'' \<and>
      list_all isDigit (drop 6 s))"

text \<open>The time values of the valid dates.\<close>

definition valid_date :: "int \<Rightarrow> bool" where
  "valid_date tv = (\<bar>tv\<bar> \<le> 8640000000000000)"

text \<open>Replace the first element that satisfies \<open>P\<close>, or append when there is none.\<close>

fun upsert :: "('a \<Rightarrow> bool) \<Rightarrow> 'a \<Rightarrow> 'a list \<Rightarrow> 'a list" where
  "upsert P c [] = [c]"
| "upsert P c (x # xs) = (if P x then c # xs else x # upsert P c xs)"

section \<open>Example data\<close>

definition customer_of :: "string \<Rightarrow> string \<Rightarrow> customer" where
  "customer_of n c =
     \<lparr>customer.name = n, street = None, city = Some c, state = None, zip = None,
      country = None, addresses = None\<rparr>"

definition store_of ::
    "customer list \<Rightarrow> product list \<Rightarrow> (string \<rightharpoonup> nat list) \<Rightarrow> (unit, nat) localStorage" where
  "store_of cs ps sheets =
     \<lparr>customerDatabase = Some cs, productDatabase = Some ps, callsheets = Some sheets\<rparr>"

section \<open>Customer normalisation\<close>

lemma has_addresses_updated: "has_addresses (c\<lparr>addresses := Some [a]\<rparr>)"
  by (simp add: has_addresses_def)

lemma or_empty_cases: "or_empty x = (case x of None \<Rightarrow> [] | Some s \<Rightarrow> s)"
  by (simp add: or_empty_def split: option.splits)

text \<open>
  Claim C4. \<open>normalizeCustomer\<close> returns \<open>null\<close> for \<open>null\<close>; it returns a customer whose
  \<open>addresses\<close> is a non-empty array unchanged; otherwise it returns the record with
  \<open>addresses\<close> set to the one address labelled "Primary" whose street, city, state, zip and
  country are the customer's own, a missing one becoming the empty string.
\<close>

theorem normalizeCustomer_cases:
  "normalizeCustomer None = None \<and>
   (addresses c = Some as \<and> as \<noteq> [] \<longrightarrow> normalizeCustomer (Some c) = Some c) \<and>
   (addresses c = None \<or> addresses c = Some [] \<longrightarrow>
      normalizeCustomer (Some c) = Some (c\<lparr>addresses := Some
        [\<lparr>label = ''Primary'',
          address.street = (case customer.street c of None \<Rightarrow> [] | Some s \<Rightarrow> s),
          address.city = (case customer.city c of None \<Rightarrow> [] | Some s \<Rightarrow> s),
          address.state = (case customer.state c of None \<Rightarrow> [] | Some s \<Rightarrow> s),
          address.zip = (case customer.zip c of None \<Rightarrow> [] | Some s \<Rightarrow> s),
          address.country = (case customer.country c of None \<Rightarrow> [] | Some s \<Rightarrow> s)\<rparr>]\<rparr>))"
proof (intro conjI impI)
  show "normalizeCustomer None = None" by (simp add: normalizeCustomer_def)
next
  assume "addresses c = Some as \<and> as \<noteq> []"
  then have "has_addresses c" by (simp add: has_addresses_def)
  then show "normalizeCustomer (Some c) = Some c" by (simp add: normalizeCustomer_def)
next
  assume "addresses c = None \<or> addresses c = Some []"
  then have "\<not> has_addresses c" by (auto simp: has_addresses_def)
  then show "normalizeCustomer (Some c) = Some (c\<lparr>addresses := Some
        [\<lparr>label = ''Primary'',
          address.street = (case customer.street c of None \<Rightarrow> [] | Some s \<Rightarrow> s),
          address.city = (case customer.city c of None \<Rightarrow> [] | Some s \<Rightarrow> s),
          address.state = (case customer.state c of None \<Rightarrow> [] | Some s \<Rightarrow> s),
          address.zip = (case customer.zip c of None \<Rightarrow> [] | Some s \<Rightarrow> s),
          address.country = (case customer.country c of None \<Rightarrow> [] | Some s \<Rightarrow> s)\<rparr>]\<rparr>)"
    by (simp add: normalizeCustomer_def or_empty_cases)
qed

theorem normalizeCustomer_cases_witness:
  "normalizeCustomer
     (Some \<lparr>customer.name = ''Acme'', street = Some ''1 High St'', city = None, state = None,
            zip = Some ''AB1 2CD'', country = None,
            addresses = Some [\<lparr>label = ''Depot'', address.street = ''2 Low Rd'', city = ''Leeds'',
              state = [], zip = [], country = ''UK''\<rparr>]\<rparr>)
   = Some \<lparr>customer.name = ''Acme'', street = Some ''1 High St'', city = None, state = None,
            zip = Some ''AB1 2CD'', country = None,
            addresses = Some [\<lparr>label = ''Depot'', address.street = ''2 Low Rd'', city = ''Leeds'',
              state = [], zip = [], country = ''UK''\<rparr>]\<rparr> \<and>
   normalizeCustomer
     (Some \<lparr>customer.name = ''Acme'', street = Some ''1 High St'', city = None, state = None,
            zip = Some ''AB1 2CD'', country = None, addresses = None\<rparr>)
   = Some \<lparr>customer.name = ''Acme'', street = Some ''1 High St'', city = None, state = None,
            zip = Some ''AB1 2CD'', country = None,
            addresses = Some [\<lparr>label = ''Primary'', address.street = ''1 High St'', city = [],
              state = [], zip = ''AB1 2CD'', country = []\<rparr>]\<rparr>"
  using normalizeCustomer_cases[of
      "\<lparr>customer.name = ''Acme'', street = Some ''1 High St'', city = None, state = None,
        zip = Some ''AB1 2CD'', country = None,
        addresses = Some [\<lparr>label = ''Depot'', address.street = ''2 Low Rd'', city = ''Leeds'',
          state = [], zip = [], country = ''UK''\<rparr>]\<rparr>"
      "[\<lparr>label = ''Depot'', address.street = ''2 Low Rd'', city = ''Leeds'',
          state = [], zip = [], country = ''UK''\<rparr>]"]
    normalizeCustomer_cases[of
      "\<lparr>customer.name = ''Acme'', street = Some ''1 High St'', city = None, state = None,
        zip = Some ''AB1 2CD'', country = None, addresses = None\<rparr>" "[]"]
  by auto

text \<open>
  Claim C5. Normalising is idempotent: normalising the result of \<open>normalizeCustomer\<close> gives
  that result again, for every argument (a customer record or \<open>null\<close>).
\<close>

theorem normalizeCustomer_idempotent:
  "normalizeCustomer (normalizeCustomer c) = normalizeCustomer c"
proof (cases c)
  case None
  then show ?thesis by (simp add: normalizeCustomer_def)
next
  case (Some r)
  show ?thesis
  proof (cases "has_addresses r")
    case True
    with Some show ?thesis by (simp add: normalizeCustomer_def)
  next
    case False
    with Some show ?thesis
      by (simp add: normalizeCustomer_def has_addresses_updated)
  qed
qed

section \<open>The regular expression of parseProductString\<close>

lemma first_some_None: "(\<And>x. x \<in> set xs \<Longrightarrow> f x = None) \<Longrightarrow> first_some f xs = None"
  by (induction xs) auto

lemma first_some_append:
  "first_some f (xs @ ys) = (case first_some f xs of Some y \<Rightarrow> Some y | None \<Rightarrow> first_some f ys)"
  by (induction xs) (auto split: option.splits)

lemma first_some_SomeD: "first_some f xs = Some y \<Longrightarrow> \<exists>x\<in>set xs. f x = Some y"
  by (induction xs) (auto split: option.splits)

text \<open>A greedy quantifier whose shorter runs all fail matches with its longest run or not
  at all.\<close>

lemma first_some_greedy:
  assumes "\<And>n. lo \<le> n \<Longrightarrow> n < hi \<Longrightarrow> f n = None" and "lo \<le> hi"
  shows "first_some f (rev [lo..<Suc hi]) = f hi"
proof -
  have "rev [lo..<Suc hi] = hi # rev [lo..<hi]" using assms(2) by simp
  moreover have "first_some f (rev [lo..<hi]) = None"
    by (rule first_some_None) (use assms(1) in auto)
  ultimately show ?thesis by (simp split: option.splits)
qed

lemma match_code_eq:
  "match_code r =
     (if takeWhile (\<lambda>c. c \<noteq> CHR '']'') r \<noteq> [] \<and> dropWhile (\<lambda>c. c \<noteq> CHR '']'') r = '']''
      then Some (takeWhile (\<lambda>c. c \<noteq> CHR '']'') r) else None)"
proof -
  let ?P = "\<lambda>c. c \<noteq> CHR '']''"
  let ?m = "length (takeWhile ?P r)"
  let ?f = "\<lambda>n. if drop n r = '']'' then Some (take n r) else None"
  have tk: "take ?m r = takeWhile ?P r" and dr: "drop ?m r = dropWhile ?P r"
    by (simp_all add: takeWhile_eq_take[symmetric] dropWhile_eq_drop[symmetric])
  show ?thesis
  proof (cases "?m = 0")
    case True
    then show ?thesis by (simp add: match_code_def)
  next
    case False
    have none: "?f n = None" if "1 \<le> n" "n < ?m" for n
    proof -
      have "n < length r" using that(2) length_takeWhile_le[of ?P r] by linarith
      moreover have "r ! n \<noteq> CHR '']''"
      proof -
        have "takeWhile ?P r ! n \<in> set (takeWhile ?P r)" using that(2) by simp
        then have "?P (takeWhile ?P r ! n)" by (rule set_takeWhileD[THEN conjunct2])
        then show ?thesis using that(2) by (simp add: takeWhile_nth)
      qed
      ultimately have "drop n r \<noteq> '']''"
        by (metis Cons_nth_drop_Suc list.inject)
      then show ?thesis by simp
    qed
    have m1: "1 \<le> ?m" using False by (cases "takeWhile ?P r") simp_all
    have "match_code r = ?f ?m"
      unfolding match_code_def by (rule first_some_greedy) (fact none, fact m1)
    also have "\<dots> = (if dropWhile ?P r = '']'' then Some (takeWhile ?P r) else None)"
      by (simp only: tk dr)
    finally show ?thesis using False by simp
  qed
qed

lemma match_space_eq: "match_space r = match_bracket (dropWhile isWhiteSpace r)"
proof -
  let ?w = "length (takeWhile isWhiteSpace r)"
  let ?f = "\<lambda>n. match_bracket (drop n r)"
  have "?f n = None" if "n < ?w" for n
  proof -
    have "n < length r" using that length_takeWhile_le[of isWhiteSpace r] by linarith
    moreover have "isWhiteSpace (r ! n)"
    proof -
      have "takeWhile isWhiteSpace r ! n \<in> set (takeWhile isWhiteSpace r)" using that by simp
      then have "isWhiteSpace (takeWhile isWhiteSpace r ! n)"
        by (rule set_takeWhileD[THEN conjunct2])
      then show ?thesis using that by (simp add: takeWhile_nth)
    qed
    then have "r ! n \<noteq> CHR ''[''" by (auto simp: isWhiteSpace_def)
    ultimately show ?thesis
      by (simp add: match_bracket_def Cons_nth_drop_Suc[symmetric])
  qed
  then have "match_space r = ?f ?w"
    unfolding match_space_def by (intro first_some_greedy) auto
  then show ?thesis by (simp add: dropWhile_eq_drop[symmetric])
qed

lemma match_code_closed:
  assumes "CHR '']'' \<in> set cs" and "t \<noteq> []"
  shows "match_code (cs @ t) = None"
proof -
  let ?P = "\<lambda>c. c \<noteq> CHR '']''"
  have "dropWhile ?P (cs @ t) = dropWhile ?P cs @ t"
    using assms(1) by (intro dropWhile_append1) auto
  moreover have "dropWhile ?P cs \<noteq> []" using assms(1) by (simp add: dropWhile_eq_Nil_conv)
  ultimately have "length (dropWhile ?P (cs @ t)) \<ge> 2"
    using assms(2) by (cases "dropWhile ?P cs"; cases t) auto
  then have "dropWhile ?P (cs @ t) \<noteq> '']''" by auto
  then show ?thesis by (simp add: match_code_eq)
qed

lemma match_code_plain:
  assumes "cd \<noteq> []" and "CHR '']'' \<notin> set cd"
  shows "match_code (cd @ '']'') = Some cd"
proof -
  let ?P = "\<lambda>c. c \<noteq> CHR '']''"
  have all: "\<And>x. x \<in> set cd \<Longrightarrow> ?P x" using assms(2) by auto
  have "takeWhile ?P (cd @ '']'') = cd" using all by (simp add: takeWhile_append2)
  moreover have "dropWhile ?P (cd @ '']'') = '']''" using all by (simp add: dropWhile_append2)
  ultimately show ?thesis using assms(1) by (simp add: match_code_eq)
qed

lemma match_code_SomeD: "match_code r = Some c \<Longrightarrow> r = c @ '']''"
proof -
  assume "match_code r = Some c"
  then have "takeWhile (\<lambda>c. c \<noteq> CHR '']'') r = c" and "dropWhile (\<lambda>c. c \<noteq> CHR '']'') r = '']''"
    by (auto simp: match_code_eq split: if_splits)
  then show ?thesis by (metis takeWhile_dropWhile_id)
qed

text \<open>A match splits the string into the first group, white space, and the second group
  in brackets.\<close>

lemma match_product_SomeD:
  assumes "match_product s = Some (a, c)"
  shows "\<exists>w. s = a @ w @ CHR ''['' # c @ '']''"
proof -
  from assms obtain k where k: "map_option (\<lambda>c. (take k s, c)) (match_space (drop k s)) = Some (a, c)"
    unfolding match_product_def by (blast dest: first_some_SomeD)
  then have a: "a = take k s" and m: "match_bracket (dropWhile isWhiteSpace (drop k s)) = Some c"
    by (auto simp: match_space_eq)
  from m obtain r where r: "dropWhile isWhiteSpace (drop k s) = CHR ''['' # r" and "match_code r = Some c"
    by (auto simp: match_bracket_def split: list.splits if_splits)
  then have "r = c @ '']''" by (simp add: match_code_SomeD)
  with r have "drop k s = takeWhile isWhiteSpace (drop k s) @ CHR ''['' # c @ '']''"
    by (metis takeWhile_dropWhile_id)
  then have "s = a @ takeWhile isWhiteSpace (drop k s) @ CHR ''['' # c @ '']''"
    using a by (metis append_take_drop_id)
  then show ?thesis by blast
qed

lemma closed_brackets_drop: "closed_brackets u \<Longrightarrow> closed_brackets (drop n u)"
proof (induction u arbitrary: n)
  case Nil
  then show ?case by simp
next
  case (Cons c cs)
  then show ?case by (cases n) auto
qed

text \<open>No match starts inside a name whose brackets are closed.\<close>

lemma no_match_inside:
  assumes "closed_brackets u" and "u \<noteq> []" and "\<not> isWhiteSpace (last u)" and "t \<noteq> []"
  shows "match_space (u @ t) = None"
  using assms
proof (induction u)
  case Nil
  then show ?case by simp
next
  case (Cons c cs)
  show ?case
  proof (cases "isWhiteSpace c")
    case True
    with Cons.prems have "cs \<noteq> []" by auto
    with Cons True show ?thesis by (simp add: match_space_eq)
  next
    case False
    with Cons.prems show ?thesis
      by (auto simp: match_space_eq match_bracket_def match_code_closed)
  qed
qed

lemma trim_fixed:
  assumes "trim s = s" and "s \<noteq> []"
  shows "\<not> isWhiteSpace (hd s) \<and> \<not> isWhiteSpace (last s)"
proof -
  let ?d = "dropWhile isWhiteSpace s"
  have len: "length (trim s) \<le> length ?d"
    unfolding trim_def using length_dropWhile_le[of isWhiteSpace "rev ?d"] by simp
  have "length ?d \<le> length s" by (rule length_dropWhile_le)
  with len assms(1) have "length ?d = length s" by simp
  then have d: "?d = s"
    by (metis append_eq_conv_conj length_0_conv takeWhile_dropWhile_id append_self_conv2 length_append add_cancel_left_left)
  then have h: "\<not> isWhiteSpace (hd s)" using assms(2) by (metis hd_dropWhile)
  from assms(1) d have "dropWhile isWhiteSpace (rev s) = rev s"
    unfolding trim_def by (metis rev_rev_ident)
  then have "\<not> isWhiteSpace (hd (rev s))" using assms(2) by (metis hd_dropWhile rev_is_Nil_conv)
  then have "\<not> isWhiteSpace (last s)" using assms(2) by (simp add: hd_rev)
  with h show ?thesis by simp
qed

lemma match_product_format:
  assumes cd: "cd \<noteq> []" "CHR '']'' \<notin> set cd"
    and nm: "nm \<noteq> []" "\<not> isWhiteSpace (last nm)" "\<And>c. c \<in> set nm \<Longrightarrow> \<not> isLineTerminator c"
    and br: "closed_brackets (tl nm)"
  shows "match_product (nm @ '' ['' @ cd @ '']'') = Some (nm, cd)"
proof -
  let ?t = "'' ['' @ cd @ '']''"
  let ?s = "nm @ ?t"
  let ?L = "length nm"
  let ?p = "length (takeWhile (\<lambda>c. \<not> isLineTerminator c) ?s)"
  let ?f = "\<lambda>k. map_option (\<lambda>c. (take k ?s, c)) (match_space (drop k ?s))"
  have "takeWhile (\<lambda>c. \<not> isLineTerminator c) ?s = nm @ takeWhile (\<lambda>c. \<not> isLineTerminator c) ?t"
    using nm(3) by (simp add: takeWhile_append2)
  then have p: "?L < ?p" by (simp add: isLineTerminator_def)
  have L: "1 \<le> ?L" using nm(1) by (cases nm) simp_all
  have split: "[1..<Suc ?p] = [1..<?L] @ ?L # [Suc ?L..<Suc ?p]"
  proof -
    obtain d where d: "Suc ?p = ?L + d" using p by (metis less_imp_add_positive add_Suc_right)
    have "[1..<Suc ?p] = [1..<?L] @ [?L..<Suc ?p]"
      unfolding d using L by (rule upt_add_eq_append)
    moreover have "[?L..<Suc ?p] = ?L # [Suc ?L..<Suc ?p]"
      using p by (simp add: upt_conv_Cons)
    ultimately show ?thesis by simp
  qed
  have early: "?f k = None" if "k \<in> set [1..<?L]" for k
  proof -
    from that have k: "1 \<le> k" "k < ?L" by auto
    have "drop k nm = drop (k - 1) (tl nm)" using k(1) by (cases k) (simp_all add: drop_Suc)
    then have "closed_brackets (drop k nm)" using br by (simp add: closed_brackets_drop)
    moreover have "drop k nm \<noteq> []" using k(2) by simp
    moreover have "\<not> isWhiteSpace (last (drop k nm))" using nm(2) k(2) by simp
    ultimately have "match_space (drop k nm @ ?t) = None"
      by (intro no_match_inside) simp_all
    then show ?thesis using k(2) by simp
  qed
  have "match_space ?t = Some cd"
    using cd by (simp add: match_space_eq match_bracket_def isWhiteSpace_def match_code_plain)
  then have at: "?f ?L = Some (nm, cd)" by simp
  have "match_product ?s = first_some ?f ([1..<?L] @ ?L # [Suc ?L..<Suc ?p])"
    unfolding match_product_def split ..
  also have "\<dots> = Some (nm, cd)"
    using first_some_None[of "[1..<?L]" ?f, OF early] at
    by (simp add: first_some_append)
  finally show ?thesis .
qed

lemma match_product_format_empty:
  assumes cd: "cd \<noteq> []" "CHR '']'' \<notin> set cd"
  shows "match_product ('' ['' @ cd @ '']'') = Some ('' '', cd)"
proof -
  let ?s = "'' ['' @ cd @ '']''"
  let ?p = "length (takeWhile (\<lambda>c. \<not> isLineTerminator c) ?s)"
  let ?f = "\<lambda>k. map_option (\<lambda>c. (take k ?s, c)) (match_space (drop k ?s))"
  define p where "p = ?p"
  have "0 < p" by (simp add: p_def isLineTerminator_def)
  then have "[1..<Suc p] = Suc 0 # [Suc (Suc 0)..<Suc p]"
    by (simp add: upt_conv_Cons)
  then have "match_product ?s = first_some ?f (Suc 0 # [Suc (Suc 0)..<Suc p])"
    unfolding match_product_def p_def by simp
  moreover have "match_space (drop (Suc 0) ?s) = Some cd"
    using cd by (simp add: match_space_eq match_bracket_def match_code_plain isWhiteSpace_def)
  ultimately show ?thesis by simp
qed

section \<open>Formatting and parsing a product\<close>

text \<open>
  Claim C6, as amended. A product with a non-empty code is recovered by
  \<open>parseProductString\<close> from \<open>formatProductWithCode\<close> when its name and code have no white
  space at either end, the name has no line terminator, the code has no \<open>]\<close>, and every
  \<open>[\<close> after the first character of the name is followed by a \<open>]\<close> later in the name. For a
  product with an empty code \<open>formatProductWithCode\<close> gives the name. A string that does
  not end with a bracketed suffix is parsed to itself, trimmed, with the empty code.
\<close>

theorem product_round_trip:
  "(product.code p \<noteq> [] \<and> trim (product.name p) = product.name p \<and>
    trim (product.code p) = product.code p \<and>
    CHR '']'' \<notin> set (product.code p) \<and> closed_brackets (tl (product.name p)) \<and>
    (\<forall>c\<in>set (product.name p). \<not> isLineTerminator c)
      \<longrightarrow> parseProductString (Some (formatProductWithCode (Some p))) = p) \<and>
   (product.code q = [] \<longrightarrow> formatProductWithCode (Some q) = product.name q) \<and>
   ((\<nexists>a c. s = a @ CHR ''['' # c @ '']'')
      \<longrightarrow> parseProductString (Some s) = \<lparr>product.name = trim s, code = []\<rparr>)"
proof (intro conjI impI)
  assume h: "product.code p \<noteq> [] \<and> trim (product.name p) = product.name p \<and>
    trim (product.code p) = product.code p \<and>
    CHR '']'' \<notin> set (product.code p) \<and> closed_brackets (tl (product.name p)) \<and>
    (\<forall>c\<in>set (product.name p). \<not> isLineTerminator c)"
  show "parseProductString (Some (formatProductWithCode (Some p))) = p"
  proof (cases "product.name p = []")
    case True
    have "trim '' '' = []" by (simp add: trim_def isWhiteSpace_def)
    with True h show ?thesis
      using match_product_format_empty[of "product.code p"]
      by (simp add: parseProductString_def formatProductWithCode_def)
  next
    case False
    with h have "\<not> isWhiteSpace (last (product.name p))" using trim_fixed by blast
    with False h have "match_product (product.name p @ '' ['' @ product.code p @ '']'')
        = Some (product.name p, product.code p)"
      by (intro match_product_format) auto
    with h show ?thesis
      by (simp add: parseProductString_def formatProductWithCode_def)
  qed
next
  assume "product.code q = []"
  then show "formatProductWithCode (Some q) = product.name q"
    by (simp add: formatProductWithCode_def)
next
  assume h: "\<nexists>a c. s = a @ CHR ''['' # c @ '']''"
  have "match_product s = None"
  proof (cases "match_product s")
    case None
    then show ?thesis .
  next
    case (Some ac)
    then obtain a c where "match_product s = Some (a, c)" by (cases ac) auto
    then obtain w where "s = (a @ w) @ CHR ''['' # c @ '']''"
      using match_product_SomeD by fastforce
    with h show ?thesis by blast
  qed
  then show "parseProductString (Some s) = \<lparr>product.name = trim s, code = []\<rparr>"
    by (simp add: parseProductString_def trim_def)
qed

theorem product_round_trip_witness:
  "parseProductString (Some (formatProductWithCode (Some \<lparr>product.name = ''Widget'', code = ''W1''\<rparr>)))
     = \<lparr>product.name = ''Widget'', code = ''W1''\<rparr> \<and>
   formatProductWithCode (Some \<lparr>product.name = ''Widget'', code = []\<rparr>) = ''Widget'' \<and>
   parseProductString (Some ''Widget'') = \<lparr>product.name = ''Widget'', code = []\<rparr>"
proof -
  have bare: "\<nexists>a c. ''Widget'' = a @ CHR ''['' # c @ '']''"
  proof
    assume "\<exists>a c. ''Widget'' = a @ CHR ''['' # c @ '']''"
    then obtain a c where "''Widget'' = a @ CHR ''['' # c @ '']''" by blast
    then have "last ''Widget'' = last (a @ CHR ''['' # c @ '']'')" by simp
    then show False by simp
  qed
  have t: "trim ''Widget'' = ''Widget''" "trim ''W1'' = ''W1''"
    by (simp_all add: trim_def isWhiteSpace_def)
  show ?thesis
    using product_round_trip[of "\<lparr>product.name = ''Widget'', code = ''W1''\<rparr>"
        "\<lparr>product.name = ''Widget'', code = []\<rparr>" "''Widget''"] bare t
    by (simp add: isLineTerminator_def)
qed

text \<open>
  Claim C6 as stated fails: a code that contains \<open>]\<close> is not recovered. The product
  named Widget with the code \<open>A]B\<close> is formatted as \<open>Widget [A]B]\<close>, which the regular
  expression does not match, and is parsed as a bare name.
\<close>

theorem product_round_trip_counterexample:
  "parseProductString (Some (formatProductWithCode (Some \<lparr>product.name = ''Widget'', code = ''A]B''\<rparr>)))
     \<noteq> \<lparr>product.name = ''Widget'', code = ''A]B''\<rparr>"
  by (simp add: parseProductString_def formatProductWithCode_def match_product_def match_space_eq
      match_bracket_def match_code_eq isWhiteSpace_def isLineTerminator_def trim_def)

section \<open>Saving a customer\<close>

lemma findIndexFrom_upsert:
  "0 \<le> k \<Longrightarrow>
   (findIndexFrom P xs k = - 1 \<or> k \<le> findIndexFrom P xs k) \<and>
   (if findIndexFrom P xs k \<noteq> - 1 then xs[nat (findIndexFrom P xs k - k) := c] else xs @ [c])
     = upsert P c xs"
proof (induction xs arbitrary: k)
  case Nil
  then show ?case by simp
next
  case (Cons x xs)
  show ?case
  proof (cases "P x")
    case True
    with Cons.prems show ?thesis by simp
  next
    case False
    from Cons.prems have k1: "0 \<le> k + 1" by simp
    note ih = Cons.IH[OF k1]
    show ?thesis
    proof (cases "findIndexFrom P xs (k + 1) = - 1")
      case True
      with False ih show ?thesis by simp
    next
      case neq: False
      with ih have ge: "k + 1 \<le> findIndexFrom P xs (k + 1)" by simp
      then have "nat (findIndexFrom P xs (k + 1) - k) = Suc (nat (findIndexFrom P xs (k + 1) - (k + 1)))"
        by linarith
      with False neq ih ge Cons.prems show ?thesis by simp
    qed
  qed
qed

lemma saveCustomer_upsert:
  "saveCustomer c ls =
     (True, ls\<lparr>customerDatabase :=
        Some (upsert (\<lambda>x. customer.name x = customer.name c) c (getAllCustomers ls))\<rparr>)"
proof -
  let ?P = "\<lambda>x. customer.name x = customer.name c"
  define cs where "cs = (case customerDatabase ls of None \<Rightarrow> [] | Some cs \<Rightarrow> cs)"
  have g: "getAllCustomers ls = cs"
    by (simp add: cs_def getAllCustomers_def getLocalStorage_def)
  have u: "(if findIndexFrom ?P cs 0 \<noteq> - 1 then cs[nat (findIndexFrom ?P cs 0) := c] else cs @ [c])
      = upsert ?P c cs"
    using findIndexFrom_upsert[OF order_refl, of ?P cs c, THEN conjunct2]
    by (simp only: diff_0_right)
  show ?thesis
    unfolding g saveCustomer_def findIndex_def Let_def cs_def[symmetric] u ..
qed

lemma getAllCustomers_saveCustomer:
  "getAllCustomers (snd (saveCustomer c ls)) =
     upsert (\<lambda>x. customer.name x = customer.name c) c (getAllCustomers ls)"
  by (simp add: saveCustomer_upsert getAllCustomers_def getLocalStorage_def)

lemma upsert_absent: "(\<And>x. x \<in> set xs \<Longrightarrow> \<not> P x) \<Longrightarrow> upsert P c xs = xs @ [c]"
  by (induction xs) auto

lemma upsert_present:
  "\<exists>x\<in>set xs. P x \<Longrightarrow>
   \<exists>i<length xs. P (xs ! i) \<and> (\<forall>j<i. \<not> P (xs ! j)) \<and> upsert P c xs = xs[i := c]"
proof (induction xs)
  case Nil
  then show ?case by simp
next
  case (Cons x xs)
  show ?case
  proof (cases "P x")
    case True
    then have "0 < length (x # xs) \<and> P ((x # xs) ! 0) \<and> (\<forall>j<0. \<not> P ((x # xs) ! j)) \<and>
        upsert P c (x # xs) = (x # xs)[0 := c]" by simp
    then show ?thesis by blast
  next
    case False
    with Cons.prems have "\<exists>x\<in>set xs. P x" by auto
    then obtain i where i: "i < length xs" "P (xs ! i)" "\<forall>j<i. \<not> P (xs ! j)" "upsert P c xs = xs[i := c]"
      using Cons.IH by blast
    have "\<forall>j<Suc i. \<not> P ((x # xs) ! j)"
    proof (intro allI impI)
      fix j assume "j < Suc i"
      then show "\<not> P ((x # xs) ! j)" using False i(3) by (cases j) auto
    qed
    with i False have "Suc i < length (x # xs) \<and> P ((x # xs) ! Suc i) \<and>
        (\<forall>j<Suc i. \<not> P ((x # xs) ! j)) \<and> upsert P c (x # xs) = (x # xs)[Suc i := c]" by simp
    then show ?thesis by blast
  qed
qed

lemma upsert_others: "P c \<Longrightarrow> filter (\<lambda>x. \<not> P x) (upsert P c xs) = filter (\<lambda>x. \<not> P x) xs"
  by (induction xs) auto

lemma upsert_length:
  "length (upsert P c xs) = (if \<exists>x\<in>set xs. P x then length xs else Suc (length xs))"
  by (induction xs) auto

lemma upsert_matching:
  "P c \<Longrightarrow> filter P (upsert P c xs) = (case filter P xs of [] \<Rightarrow> [c] | y # ys \<Rightarrow> c # ys)"
proof (induction xs)
  case Nil
  then show ?case by simp
next
  case (Cons x xs)
  then show ?case by (cases "P x") (auto split: list.splits)
qed

lemma upsert_first:
  "\<exists>x\<in>set xs. P x \<Longrightarrow>
   upsert P c xs = takeWhile (\<lambda>x. \<not> P x) xs @ c # tl (dropWhile (\<lambda>x. \<not> P x) xs)"
  by (induction xs) auto

lemma upsert_keys:
  "f ` set (upsert (\<lambda>x. f x = f c) c xs) \<subseteq> insert (f c) (f ` set xs)"
  by (induction xs) auto

text \<open>The names stay distinct: \<open>saveCustomer\<close> never stores a second record of a name.\<close>

lemma upsert_distinct:
  "distinct (map f xs) \<Longrightarrow> distinct (map f (upsert (\<lambda>x. f x = f c) c xs))"
proof (induction xs)
  case Nil
  then show ?case by simp
next
  case (Cons x xs)
  show ?case
  proof (cases "f x = f c")
    case True
    with Cons.prems show ?thesis by simp
  next
    case False
    have "f x \<notin> f ` set (upsert (\<lambda>x. f x = f c) c xs)"
      using upsert_keys[of f c xs] Cons.prems False by auto
    with Cons False show ?thesis by simp
  qed
qed

lemma saveCustomer_distinct:
  "distinct (map customer.name (getAllCustomers ls)) \<Longrightarrow>
   distinct (map customer.name (getAllCustomers (snd (saveCustomer c ls))))"
  by (simp add: getAllCustomers_saveCustomer upsert_distinct)

text \<open>
  Claim C8. \<open>saveCustomer\<close> is an upsert keyed by the exact name. When no stored record has
  the name the record is appended; when one has, the first such record is replaced where it
  stands. Two calls with the same name, on a store that holds at most one record of that
  name (the name is the key of a customer), leave exactly one record of that name, the
  record of the second call.
\<close>

theorem saveCustomer_upserts:
  "((\<forall>x\<in>set (getAllCustomers ls). customer.name x \<noteq> customer.name c) \<longrightarrow>
      saveCustomer c ls = (True, ls\<lparr>customerDatabase := Some (getAllCustomers ls @ [c])\<rparr>)) \<and>
   ((\<exists>x\<in>set (getAllCustomers ls). customer.name x = customer.name c) \<longrightarrow>
      saveCustomer c ls = (True, ls\<lparr>customerDatabase := Some
        (takeWhile (\<lambda>x. customer.name x \<noteq> customer.name c) (getAllCustomers ls) @ c #
         tl (dropWhile (\<lambda>x. customer.name x \<noteq> customer.name c) (getAllCustomers ls)))\<rparr>)) \<and>
   (customer.name c1 = customer.name c2 \<and>
    length (filter (\<lambda>x. customer.name x = customer.name c2) (getAllCustomers ls)) \<le> 1 \<longrightarrow>
      filter (\<lambda>x. customer.name x = customer.name c2)
        (getAllCustomers (snd (saveCustomer c2 (snd (saveCustomer c1 ls))))) = [c2])"
proof (intro conjI impI)
  assume "\<forall>x\<in>set (getAllCustomers ls). customer.name x \<noteq> customer.name c"
  then show "saveCustomer c ls = (True, ls\<lparr>customerDatabase := Some (getAllCustomers ls @ [c])\<rparr>)"
    by (simp add: saveCustomer_upsert upsert_absent)
next
  assume "\<exists>x\<in>set (getAllCustomers ls). customer.name x = customer.name c"
  then have "upsert (\<lambda>x. customer.name x = customer.name c) c (getAllCustomers ls) =
      takeWhile (\<lambda>x. customer.name x \<noteq> customer.name c) (getAllCustomers ls) @ c #
      tl (dropWhile (\<lambda>x. customer.name x \<noteq> customer.name c) (getAllCustomers ls))"
    by (rule upsert_first)
  then show "saveCustomer c ls = (True, ls\<lparr>customerDatabase := Some
        (takeWhile (\<lambda>x. customer.name x \<noteq> customer.name c) (getAllCustomers ls) @ c #
         tl (dropWhile (\<lambda>x. customer.name x \<noteq> customer.name c) (getAllCustomers ls)))\<rparr>)"
    by (simp add: saveCustomer_upsert)
next
  assume h: "customer.name c1 = customer.name c2 \<and>
    length (filter (\<lambda>x. customer.name x = customer.name c2) (getAllCustomers ls)) \<le> 1"
  let ?P = "\<lambda>x. customer.name x = customer.name c2"
  have 1: "filter ?P (upsert ?P c1 (getAllCustomers ls)) = [c1]"
    using h by (auto simp: upsert_matching split: list.splits)
  have "filter ?P (upsert ?P c2 (upsert ?P c1 (getAllCustomers ls))) = [c2]"
    by (simp add: upsert_matching 1)
  then show "filter ?P (getAllCustomers (snd (saveCustomer c2 (snd (saveCustomer c1 ls))))) = [c2]"
    using h by (simp add: getAllCustomers_saveCustomer)
qed

theorem saveCustomer_upserts_witness:
  "saveCustomer (customer_of ''Cog'' ''Hull'')
     (store_of [customer_of ''Acme'' ''Leeds'', customer_of ''Bolt'' ''York''] [] Map.empty)
   = (True, store_of [customer_of ''Acme'' ''Leeds'', customer_of ''Bolt'' ''York'',
        customer_of ''Cog'' ''Hull''] [] Map.empty) \<and>
   saveCustomer (customer_of ''Acme'' ''Bath'')
     (store_of [customer_of ''Acme'' ''Leeds'', customer_of ''Bolt'' ''York''] [] Map.empty)
   = (True, store_of [customer_of ''Acme'' ''Bath'', customer_of ''Bolt'' ''York''] [] Map.empty) \<and>
   filter (\<lambda>x. customer.name x = ''Bolt'')
     (getAllCustomers (snd (saveCustomer (customer_of ''Bolt'' ''Hull'')
        (snd (saveCustomer (customer_of ''Bolt'' ''Bath'')
          (store_of [customer_of ''Acme'' ''Leeds'', customer_of ''Bolt'' ''York''] [] Map.empty))))))
   = [customer_of ''Bolt'' ''Hull'']"
  using saveCustomer_upserts[of
      "store_of [customer_of ''Acme'' ''Leeds'', customer_of ''Bolt'' ''York''] [] Map.empty"
      "customer_of ''Cog'' ''Hull''" "customer_of ''Bolt'' ''Bath''" "customer_of ''Bolt'' ''Hull''"]
    saveCustomer_upserts[of
      "store_of [customer_of ''Acme'' ''Leeds'', customer_of ''Bolt'' ''York''] [] Map.empty"
      "customer_of ''Acme'' ''Bath''" "customer_of ''Bolt'' ''Bath''" "customer_of ''Bolt'' ''Hull''"]
  by (auto simp: customer_of_def store_of_def getAllCustomers_def getLocalStorage_def)

text \<open>
  Claim C10. \<open>saveCustomer(c)\<close> leaves the stored records whose name differs from that of
  \<open>c\<close> unchanged and in their order. When a record has the name of \<open>c\<close> the list keeps its
  length; when none has, the list grows by one and \<open>c\<close> is its last record.
\<close>

theorem saveCustomer_frame:
  "filter (\<lambda>x. customer.name x \<noteq> customer.name c) (getAllCustomers (snd (saveCustomer c ls)))
     = filter (\<lambda>x. customer.name x \<noteq> customer.name c) (getAllCustomers ls) \<and>
   ((\<exists>x\<in>set (getAllCustomers ls). customer.name x = customer.name c) \<longrightarrow>
      length (getAllCustomers (snd (saveCustomer c ls))) = length (getAllCustomers ls)) \<and>
   ((\<forall>x\<in>set (getAllCustomers ls). customer.name x \<noteq> customer.name c) \<longrightarrow>
      length (getAllCustomers (snd (saveCustomer c ls))) = Suc (length (getAllCustomers ls)) \<and>
      getAllCustomers (snd (saveCustomer c ls)) = getAllCustomers ls @ [c])"
proof (intro conjI impI)
  show "filter (\<lambda>x. customer.name x \<noteq> customer.name c) (getAllCustomers (snd (saveCustomer c ls)))
     = filter (\<lambda>x. customer.name x \<noteq> customer.name c) (getAllCustomers ls)"
    using upsert_others[of "\<lambda>x. customer.name x = customer.name c" c "getAllCustomers ls"]
    by (simp add: getAllCustomers_saveCustomer)
next
  assume "\<exists>x\<in>set (getAllCustomers ls). customer.name x = customer.name c"
  then show "length (getAllCustomers (snd (saveCustomer c ls))) = length (getAllCustomers ls)"
    by (simp add: getAllCustomers_saveCustomer upsert_length)
next
  assume a: "\<forall>x\<in>set (getAllCustomers ls). customer.name x \<noteq> customer.name c"
  then show "getAllCustomers (snd (saveCustomer c ls)) = getAllCustomers ls @ [c]"
    by (simp add: getAllCustomers_saveCustomer upsert_absent)
  then show "length (getAllCustomers (snd (saveCustomer c ls))) = Suc (length (getAllCustomers ls))"
    by simp
qed

theorem saveCustomer_frame_witness:
  "filter (\<lambda>x. customer.name x \<noteq> ''Acme'')
     (getAllCustomers (snd (saveCustomer (customer_of ''Acme'' ''Bath'')
        (store_of [customer_of ''Acme'' ''Leeds'', customer_of ''Bolt'' ''York''] [] Map.empty))))
   = [customer_of ''Bolt'' ''York''] \<and>
   length (getAllCustomers (snd (saveCustomer (customer_of ''Acme'' ''Bath'')
        (store_of [customer_of ''Acme'' ''Leeds'', customer_of ''Bolt'' ''York''] [] Map.empty)))) = 2 \<and>
   getAllCustomers (snd (saveCustomer (customer_of ''Cog'' ''Hull'')
        (store_of [customer_of ''Acme'' ''Leeds'', customer_of ''Bolt'' ''York''] [] Map.empty)))
   = [customer_of ''Acme'' ''Leeds'', customer_of ''Bolt'' ''York'', customer_of ''Cog'' ''Hull'']"
  using saveCustomer_frame[of "customer_of ''Acme'' ''Bath''"
      "store_of [customer_of ''Acme'' ''Leeds'', customer_of ''Bolt'' ''York''] [] Map.empty"]
    saveCustomer_frame[of "customer_of ''Cog'' ''Hull''"
      "store_of [customer_of ''Acme'' ''Leeds'', customer_of ''Bolt'' ''York''] [] Map.empty"]
  by (auto simp: customer_of_def store_of_def getAllCustomers_def getLocalStorage_def)

section \<open>Searching the products\<close>

lemma includes_str_sublist: "includes_str s t \<longleftrightarrow> sublist t s"
proof (induction s)
  case Nil
  then show ?case by simp
next
  case (Cons c cs)
  have "take (length t) (c # cs) = t \<longleftrightarrow> prefix t (c # cs)"
    by (metis prefix_def append_take_drop_id append_eq_conv_conj)
  then show ?case using Cons by (cases t) (simp_all add: sublist_Cons_right)
qed

text \<open>
  Claim C7. \<open>searchProducts("")\<close> is the empty list whatever the catalog holds. For a
  non-empty query it is the list of the stored products, in their order, whose name or
  code in lower case contains the query in lower case as a contiguous substring.
\<close>

theorem searchProducts_matches:
  "searchProducts [] ls = [] \<and>
   (query \<noteq> [] \<longrightarrow>
      searchProducts query ls =
        filter (\<lambda>p. sublist (toLowerCase query) (toLowerCase (product.name p)) \<or>
                    sublist (toLowerCase query) (toLowerCase (product.code p)))
          (getAllProducts ls))"
proof (intro conjI impI)
  show "searchProducts [] ls = []" by (simp add: searchProducts_def)
next
  assume q: "query \<noteq> []"
  then have lq: "toLowerCase query \<noteq> []" by (simp add: toLowerCase_def)
  have "(product.code p \<noteq> [] \<and> sublist (toLowerCase query) (toLowerCase (product.code p)))
      = sublist (toLowerCase query) (toLowerCase (product.code p))" for p :: product
    using lq by (cases "product.code p = []") (simp_all add: toLowerCase_def)
  then show "searchProducts query ls =
        filter (\<lambda>p. sublist (toLowerCase query) (toLowerCase (product.name p)) \<or>
                    sublist (toLowerCase query) (toLowerCase (product.code p)))
          (getAllProducts ls)"
    using q by (simp add: searchProducts_def Let_def includes_str_sublist)
qed

theorem searchProducts_matches_witness:
  "filter (\<lambda>p. sublist (toLowerCase ''GET'') (toLowerCase (product.name p)) \<or>
               sublist (toLowerCase ''GET'') (toLowerCase (product.code p)))
     (getAllProducts (store_of []
        [\<lparr>product.name = ''Widget'', code = ''W1''\<rparr>, \<lparr>product.name = ''Bolt'', code = []\<rparr>,
         \<lparr>product.name = ''Nut'', code = ''Get7''\<rparr>] Map.empty))
   = [\<lparr>product.name = ''Widget'', code = ''W1''\<rparr>, \<lparr>product.name = ''Nut'', code = ''Get7''\<rparr>]"
proof -
  have "searchProducts ''GET'' (store_of []
        [\<lparr>product.name = ''Widget'', code = ''W1''\<rparr>, \<lparr>product.name = ''Bolt'', code = []\<rparr>,
         \<lparr>product.name = ''Nut'', code = ''Get7''\<rparr>] Map.empty)
      = [\<lparr>product.name = ''Widget'', code = ''W1''\<rparr>, \<lparr>product.name = ''Nut'', code = ''Get7''\<rparr>]"
    by code_simp
  then show ?thesis
    using searchProducts_matches[of "store_of []
        [\<lparr>product.name = ''Widget'', code = ''W1''\<rparr>, \<lparr>product.name = ''Bolt'', code = []\<rparr>,
         \<lparr>product.name = ''Nut'', code = ''Get7''\<rparr>] Map.empty" "''GET''"]
    by simp
qed

section \<open>Removing a callsheet entry\<close>

lemma map_of_names: "map_of xs p = Some v \<Longrightarrow> p \<in> set (map fst xs)"
  using map_of_eq_None_iff[of xs p] by auto

lemma Object_prototype_names:
  assumes "Object_prototype p = Some v"
  shows "p \<in> {''constructor'', ''hasOwnProperty'', ''isPrototypeOf'', ''propertyIsEnumerable'',
     ''toLocaleString'', ''toString'', ''valueOf'', ''__defineGetter__'', ''__defineSetter__'',
     ''__lookupGetter__'', ''__lookupSetter__'', ''__proto__''}"
  using map_of_names[OF assms[unfolded Object_prototype_def]]
  by (simp only: list.map list.set fst_conv)

text \<open>A week identifier names no property of \<open>Object.prototype\<close>.\<close>

lemma week_pattern_own:
  assumes "week_pattern weekId"
  shows "Object_prototype weekId = (None :: 'e jsvalue option)"
proof (rule ccontr)
  assume "Object_prototype weekId \<noteq> (None :: 'e jsvalue option)"
  then obtain v :: "'e jsvalue" where "Object_prototype weekId = Some v" by auto
  then have "weekId \<in> {''constructor'', ''hasOwnProperty'', ''isPrototypeOf'',
     ''propertyIsEnumerable'', ''toLocaleString'', ''toString'', ''valueOf'', ''__defineGetter__'',
     ''__defineSetter__'', ''__lookupGetter__'', ''__lookupSetter__'', ''__proto__''}"
    by (rule Object_prototype_names)
  then have "weekId ! 4 \<noteq> CHR ''-''"
    by (elim insertE emptyE) simp_all
  moreover have "weekId ! 4 = CHR ''-''" using assms by (simp add: week_pattern_def)
  ultimately show False by simp
qed

lemma getCallsheetForWeek_week:
  assumes "week_pattern weekId"
  shows "getCallsheetForWeek weekId ls =
     Array (case getAllCallsheets ls weekId of None \<Rightarrow> [] | Some entries \<Rightarrow> entries)"
  by (simp add: getCallsheetForWeek_def Let_def week_pattern_own[OF assms] split: option.splits)

lemma Object_prototype_not_Array: "Object_prototype p \<noteq> Some (Array entries)"
  by (simp add: Object_prototype_def)

lemma getCallsheetForWeek_Array:
  assumes "getCallsheetForWeek weekId ls = Array entries" and "entries \<noteq> []"
  shows "getAllCallsheets ls weekId = Some entries"
  using assms Object_prototype_not_Array[of weekId entries]
  by (auto simp: getCallsheetForWeek_def Let_def split: option.splits)

lemma removeCallsheetEntry_Function:
  assumes "getCallsheetForWeek weekId ls = Function n"
  shows "removeCallsheetEntry accepted weekId index ls =
     (if 0 \<le> index \<and> index < int n then Inl TypeError else Inr (False, ls))"
  by (simp add: removeCallsheetEntry_def Let_def assms)

lemma removeCallsheetEntry_Object:
  assumes "getCallsheetForWeek weekId ls = Object"
  shows "removeCallsheetEntry accepted weekId index ls = Inr (False, ls)"
  by (simp add: removeCallsheetEntry_def Let_def assms)

text \<open>
  Claim C9, as amended. Let the value of \<open>callsheets[weekId] || []\<close> be a list, the week's
  list (it is one for every identifier of the form \<open>YYYY-Www\<close>,
  \<open>getCallsheetForWeek_week\<close>). With an index out of bounds (negative, or at least the length
  of the list) \<open>removeCallsheetEntry\<close> returns \<open>false\<close> and leaves the store, and so the
  week's list, unchanged. With an index in bounds, on a store that accepts the write, it
  returns \<open>true\<close> and the week's list loses the entry at that index and nothing else, so it
  is shorter by one; on a store that refuses the write it returns \<open>false\<close> and leaves the
  store unchanged.
\<close>

theorem removeCallsheetEntry_bounds:
  "getCallsheetForWeek weekId ls = Array entries \<longrightarrow>
   (index < 0 \<or> int (length entries) \<le> index \<longrightarrow>
      removeCallsheetEntry accepted weekId index ls = Inr (False, ls)) \<and>
   (0 \<le> index \<and> index < int (length entries) \<and> accepted \<longrightarrow>
      (\<exists>ls'. removeCallsheetEntry accepted weekId index ls = Inr (True, ls') \<and>
         getCallsheetForWeek weekId ls' =
           Array (take (nat index) entries @ drop (Suc (nat index)) entries)) \<and>
      Suc (length (take (nat index) entries @ drop (Suc (nat index)) entries)) = length entries) \<and>
   (0 \<le> index \<and> index < int (length entries) \<and> \<not> accepted \<longrightarrow>
      removeCallsheetEntry accepted weekId index ls = Inr (False, ls))"
proof (intro conjI impI)
  assume g: "getCallsheetForWeek weekId ls = Array entries"
  {
    assume "index < 0 \<or> int (length entries) \<le> index"
    then show "removeCallsheetEntry accepted weekId index ls = Inr (False, ls)"
      by (auto simp: removeCallsheetEntry_def Let_def g)
  }
  {
    assume h: "0 \<le> index \<and> index < int (length entries) \<and> \<not> accepted"
    then show "removeCallsheetEntry accepted weekId index ls = Inr (False, ls)"
      by (simp add: removeCallsheetEntry_def Let_def g saveCallsheetForWeek_def
          setLocalStorage_def setItem_callsheets_def)
  }
  {
    assume h: "0 \<le> index \<and> index < int (length entries) \<and> accepted"
    then have "entries \<noteq> []" by auto
    with g have own: "getAllCallsheets ls weekId = Some entries"
      by (rule getCallsheetForWeek_Array)
    define ls' where "ls' = ls\<lparr>callsheets :=
        Some ((getAllCallsheets ls)(weekId \<mapsto> splice1 entries (nat index)))\<rparr>"
    have "removeCallsheetEntry accepted weekId index ls = Inr (True, ls')"
      using h by (simp add: removeCallsheetEntry_def Let_def g saveCallsheetForWeek_def
          setLocalStorage_def setItem_callsheets_def own ls'_def)
    moreover have "getCallsheetForWeek weekId ls' =
        Array (take (nat index) entries @ drop (Suc (nat index)) entries)"
      by (simp add: ls'_def getCallsheetForWeek_def getAllCallsheets_def getLocalStorage_def
          splice1_def)
    ultimately show "\<exists>ls'. removeCallsheetEntry accepted weekId index ls = Inr (True, ls') \<and>
         getCallsheetForWeek weekId ls' =
           Array (take (nat index) entries @ drop (Suc (nat index)) entries)"
      by blast
    from h have "nat index < length entries" by linarith
    then show "Suc (length (take (nat index) entries @ drop (Suc (nat index)) entries)) =
        length entries"
      by simp
  }
qed

theorem removeCallsheetEntry_bounds_witness:
  "removeCallsheetEntry True ''2024-W01'' 3 (store_of [] [] [''2024-W01'' \<mapsto> [10, 20, 30]])
     = Inr (False, store_of [] [] [''2024-W01'' \<mapsto> [10, 20, 30]]) \<and>
   removeCallsheetEntry True ''2024-W01'' (- 1) (store_of [] [] [''2024-W01'' \<mapsto> [10, 20, 30]])
     = Inr (False, store_of [] [] [''2024-W01'' \<mapsto> [10, 20, 30]]) \<and>
   (\<exists>ls'. removeCallsheetEntry True ''2024-W01'' 1 (store_of [] [] [''2024-W01'' \<mapsto> [10, 20, 30]])
       = Inr (True, ls') \<and>
     getCallsheetForWeek ''2024-W01'' ls' = Array [10, 30]) \<and>
   removeCallsheetEntry False ''2024-W01'' 1 (store_of [] [] [''2024-W01'' \<mapsto> [10, 20, 30]])
     = Inr (False, store_of [] [] [''2024-W01'' \<mapsto> [10, 20, 30]])"
proof -
  have g: "getCallsheetForWeek ''2024-W01'' (store_of [] [] [''2024-W01'' \<mapsto> [10, 20, 30]])
      = Array [10, 20, 30]"
    by (simp add: getCallsheetForWeek_def getAllCallsheets_def getLocalStorage_def store_of_def)
  show ?thesis
    using removeCallsheetEntry_bounds[of "''2024-W01''"
        "store_of [] [] [''2024-W01'' \<mapsto> [10, 20, 30]]" "[10, 20, 30]" 3 True]
      removeCallsheetEntry_bounds[of "''2024-W01''"
        "store_of [] [] [''2024-W01'' \<mapsto> [10, 20, 30]]" "[10, 20, 30]" "- 1" True]
      removeCallsheetEntry_bounds[of "''2024-W01''"
        "store_of [] [] [''2024-W01'' \<mapsto> [10, 20, 30]]" "[10, 20, 30]" 1 True]
      removeCallsheetEntry_bounds[of "''2024-W01''"
        "store_of [] [] [''2024-W01'' \<mapsto> [10, 20, 30]]" "[10, 20, 30]" 1 False]
    by (simp add: g)
qed

text \<open>
  Claim C9 as stated fails for a \<open>weekId\<close> that names a property of \<open>Object.prototype\<close>. No
  list is stored for the week \<open>constructor\<close>, so every index is out of bounds; but
  \<open>callsheets["constructor"]\<close> is the function \<open>Object\<close>, whose \<open>length\<close> is 1, and for the
  index 0 the call of \<open>splice\<close> throws a \<open>TypeError\<close> instead of returning \<open>false\<close>. It also
  fails on a store that refuses the write: the index 1 is in bounds for a list of three
  entries, and \<open>removeCallsheetEntry\<close> returns \<open>false\<close>.
\<close>

theorem removeCallsheetEntry_bounds_counterexample:
  "getAllCallsheets (store_of [] [] Map.empty) ''constructor'' = None \<and>
   removeCallsheetEntry True ''constructor'' 0 (store_of [] [] Map.empty) = Inl TypeError \<and>
   getAllCallsheets (store_of [] [] [''2024-W01'' \<mapsto> [10, 20, 30]]) ''2024-W01'' = Some [10, 20, 30] \<and>
   removeCallsheetEntry False ''2024-W01'' 1 (store_of [] [] [''2024-W01'' \<mapsto> [10, 20, 30]])
     = Inr (False, store_of [] [] [''2024-W01'' \<mapsto> [10, 20, 30]])"
  by (simp add: removeCallsheetEntry_def getCallsheetForWeek_def getAllCallsheets_def
      getLocalStorage_def store_of_def Object_prototype_def Let_def saveCallsheetForWeek_def
      setLocalStorage_def setItem_callsheets_def)

section \<open>The calendar\<close>

lemma div_bracket:
  fixes a k :: int
  assumes "0 < k"
  shows "k * (a div k) \<le> a" and "a < k * (a div k) + k"
proof -
  have "k * (a div k) + a mod k = a" by simp
  moreover have "0 \<le> a mod k" "a mod k < k" using assms by simp_all
  ultimately show "k * (a div k) \<le> a" and "a < k * (a div k) + k" by linarith+
qed

text \<open>The first day of a year is within two days of the mean Gregorian year's multiple.\<close>

lemma DayFromYear_bounds:
  shows "146097 * (y - 1970) - 506 \<le> 400 * DayFromYear y"
    and "400 * DayFromYear y \<le> 146097 * (y - 1970) + 589"
proof -
  have b: "4 * ((y - 1969) div 4) \<le> y - 1969" "y - 1969 < 4 * ((y - 1969) div 4) + 4"
    "100 * ((y - 1901) div 100) \<le> y - 1901" "y - 1901 < 100 * ((y - 1901) div 100) + 100"
    "400 * ((y - 1601) div 400) \<le> y - 1601" "y - 1601 < 400 * ((y - 1601) div 400) + 400"
    by (simp_all add: div_bracket)
  show "146097 * (y - 1970) - 506 \<le> 400 * DayFromYear y"
    unfolding DayFromYear_def using b by (simp add: algebra_simps)
  show "400 * DayFromYear y \<le> 146097 * (y - 1970) + 589"
    unfolding DayFromYear_def using b by (simp add: algebra_simps)
qed

lemma DayFromYear_strict_mono: "y < y' \<Longrightarrow> DayFromYear y < DayFromYear y'"
  using DayFromYear_bounds(2)[of y] DayFromYear_bounds(1)[of y'] by (simp add: algebra_simps)

lemma DayFromYear_mono: "y \<le> y' \<Longrightarrow> DayFromYear y \<le> DayFromYear y'"
  using DayFromYear_strict_mono[of y y'] by (cases "y = y'") auto

lemma DayFromYear_next: "DayFromYear (y + 1) \<le> DayFromYear y + 367"
  using DayFromYear_bounds(1)[of y] DayFromYear_bounds(2)[of "y + 1"] by (simp add: algebra_simps)

lemma YearFromTime_bracket:
  shows "DayFromYear (YearFromTime t) \<le> Day t"
    and "Day t < DayFromYear (YearFromTime t + 1)"
proof -
  define n where "n = Day t"
  define y where "y = 1970 + (400 * n) div 146097"
  have y: "146097 * (y - 1970) \<le> 400 * n" "400 * n < 146097 * (y - 1970) + 146097"
    unfolding y_def using div_bracket[of 146097 "400 * n"] by simp_all
  have a: "DayFromYear (y - 1) \<le> n"
    using DayFromYear_bounds(2)[of "y - 1"] y(1) by (simp add: algebra_simps)
  have b: "n < DayFromYear (y + 1 + 1)"
    using DayFromYear_bounds(1)[of "y + 1 + 1"] y(2) by (simp add: algebra_simps)
  have yt: "YearFromTime t = (if DayFromYear (y + 1) \<le> n then y + 1
      else if n < DayFromYear y then y - 1 else y)"
    by (simp add: YearFromTime_def Let_def y_def n_def)
  show "DayFromYear (YearFromTime t) \<le> Day t"
    using a unfolding yt n_def[symmetric] by auto
  show "Day t < DayFromYear (YearFromTime t + 1)"
    using b unfolding yt n_def[symmetric] by auto
qed

lemma YearFromTime_ge: "DayFromYear y \<le> Day t \<Longrightarrow> y \<le> YearFromTime t"
proof (rule ccontr)
  assume le: "DayFromYear y \<le> Day t" and "\<not> y \<le> YearFromTime t"
  then have "YearFromTime t + 1 \<le> y" by simp
  then have "DayFromYear (YearFromTime t + 1) \<le> DayFromYear y" by (rule DayFromYear_mono)
  with le YearFromTime_bracket(2)[of t] show False by linarith
qed

text \<open>\<open>YearFromTime\<close> is the year of the specification.\<close>

lemma YearFromTime_largest:
  "TimeFromYear (YearFromTime t) \<le> t \<and> (\<forall>y. TimeFromYear y \<le> t \<longrightarrow> y \<le> YearFromTime t)"
proof -
  have day: "TimeFromYear y \<le> t \<longleftrightarrow> DayFromYear y \<le> Day t" for y
  proof -
    have "msPerDay * DayFromYear y \<le> t \<longleftrightarrow> DayFromYear y \<le> t div msPerDay"
      using div_bracket[of msPerDay t] by (auto simp: msPerDay_def)
    then show ?thesis by (simp add: TimeFromYear_def Day_def)
  qed
  show ?thesis using YearFromTime_bracket(1)[of t] YearFromTime_ge[of _ t] by (simp add: day)
qed

lemma DayWithinYear_bounds: "0 \<le> DayWithinYear t" "DayWithinYear t \<le> 366"
  using YearFromTime_bracket[of t] DayFromYear_next[of "YearFromTime t"]
  by (simp_all add: DayWithinYear_def)

text \<open>Known dates: the epoch is a Thursday, 2000 is a leap year, 1900 is not.\<close>

lemma calendar_checks:
  "MakeDay 1970 0 1 = 0" "WeekDay 0 = 4"
  "MonthFromTime (MakeDate (MakeDay 2000 1 29) 0) = 1"
  "DateFromTime (MakeDate (MakeDay 2000 1 29) 0) = 29"
  "MonthFromTime (MakeDate (MakeDay 1900 1 29) 0) = 2"
  "DateFromTime (MakeDate (MakeDay 1900 1 29) 0) = 1"
  "YearFromTime (MakeDate (MakeDay 2024 11 31) 86399999) = 2024"
  "YearFromTime (MakeDate (MakeDay 2024 11 32) 0) = 2025"
  "MakeDay 2026 10 2 = 20759" "WeekDay (MakeDate 20759 0) = 1"
  by code_simp+

lemma LocalTime_UTC: "LocalTime tza (UTC tza t) = t"
  by (simp add: LocalTime_def UTC_def)

lemma TimeWithinDay_bounds: "0 \<le> TimeWithinDay t" "TimeWithinDay t < msPerDay"
  by (simp_all add: TimeWithinDay_def msPerDay_def)

lemma Day_MakeDate: "0 \<le> time \<Longrightarrow> time < msPerDay \<Longrightarrow> Day (MakeDate day time) = day"
proof -
  assume "0 \<le> time" "time < msPerDay"
  then have "(day * msPerDay + time) div msPerDay = day"
    by (simp add: msPerDay_def div_pos_pos_trivial)
  then show ?thesis by (simp add: Day_def MakeDate_def)
qed

text \<open>The calendar fields of a time value depend on its day only.\<close>

lemma same_Day:
  assumes "Day t = Day t'"
  shows "YearFromTime t = YearFromTime t'" and "MonthFromTime t = MonthFromTime t'"
    and "DateFromTime t = DateFromTime t'" and "WeekDay t = WeekDay t'"
proof -
  show y: "YearFromTime t = YearFromTime t'" by (simp only: YearFromTime_def assms)
  have l: "InLeapYear t = InLeapYear t'" using y by (simp add: InLeapYear_def)
  have d: "DayWithinYear t = DayWithinYear t'" using y assms by (simp add: DayWithinYear_def)
  show m: "MonthFromTime t = MonthFromTime t'" using l d by (simp add: MonthFromTime_def)
  show "DateFromTime t = DateFromTime t'" using l d m by (simp add: DateFromTime_def)
  show "WeekDay t = WeekDay t'" using assms by (simp add: WeekDay_def)
qed

lemma MonthFromTime_range:
  "MonthFromTime t \<in> {0, 1, 2, 3, 4, 5, 6, 7, 8, 9, 10, 11}"
  by (simp add: MonthFromTime_def Let_def)

text \<open>Setting the date of a time value moves it by whole days.\<close>

lemma MakeDay_of_time:
  "MakeDay (YearFromTime t) (MonthFromTime t) dt = Day t - DateFromTime t + dt"
proof -
  define m where "m = MonthFromTime t"
  have d: "Day t = DayFromYear (YearFromTime t) + DayWithinYear t"
    by (simp add: DayWithinYear_def)
  have "m \<in> {0, 1, 2, 3, 4, 5, 6, 7, 8, 9, 10, 11}"
    unfolding m_def by (rule MonthFromTime_range)
  then have "MakeDay (YearFromTime t) m dt =
      DayFromYear (YearFromTime t) + DayWithinYear t -
      (let d = DayWithinYear t; l = InLeapYear t in
        if m = 0 then d + 1
        else if m = 1 then d - 30
        else if m = 2 then d - 58 - l
        else if m = 3 then d - 89 - l
        else if m = 4 then d - 119 - l
        else if m = 5 then d - 150 - l
        else if m = 6 then d - 180 - l
        else if m = 7 then d - 211 - l
        else if m = 8 then d - 242 - l
        else if m = 9 then d - 272 - l
        else if m = 10 then d - 303 - l
        else d - 333 - l) + dt"
    unfolding MakeDay_def by (elim insertE emptyE) (simp_all add: Let_def InLeapYear_def)
  then show ?thesis
    unfolding m_def d[symmetric] by (simp add: DateFromTime_def Let_def)
qed

lemma MakeDay_January: "MakeDay y 0 1 = DayFromYear y"
  by (simp add: MakeDay_def)

section \<open>The Monday of a week\<close>

lemma TimeClip_valid: "valid_date tv \<Longrightarrow> TimeClip tv = Some tv"
  by (simp add: TimeClip_def valid_date_def)

lemma setDate_eq:
  "setDate tza tv dt = TimeClip (tv + (dt - DateFromTime (LocalTime tza tv)) * msPerDay)"
proof -
  define t where "t = LocalTime tza tv"
  have "t div msPerDay * msPerDay + t mod msPerDay = t" by simp
  then have "UTC tza (MakeDate (Day t - DateFromTime t + dt) (TimeWithinDay t)) =
      tv + (dt - DateFromTime t) * msPerDay"
    unfolding t_def by (simp add: UTC_def MakeDate_def Day_def TimeWithinDay_def LocalTime_def algebra_simps)
  then show ?thesis
    by (simp add: setDate_def Let_def MakeDay_of_time t_def)
qed

lemma Day_shift: "Day (LocalTime tza (tv + k * msPerDay)) = Day (LocalTime tza tv) + k"
  by (simp add: Day_def LocalTime_def msPerDay_def add.commute add.left_commute)

lemma monday_shift:
  fixes n :: int
  shows "n - (n + 4) mod 7 + (if (n + 4) mod 7 = 0 then - 6 else 1) = n - (n + 3) mod 7"
proof -
  define r where "r = (n + 4) mod 7"
  have r: "0 \<le> r" "r < 7" by (simp_all add: r_def)
  have "(n + 3) mod 7 = (n + 3 + 7) mod 7" by (rule mod_add_self2[symmetric])
  also have "\<dots> = (n + 4 + 6) mod 7" by (rule arg_cong[where f = "\<lambda>x. x mod 7"]) simp
  also have "\<dots> = (r + 6) mod 7" unfolding r_def by (simp add: mod_add_left_eq)
  finally have e: "(n + 3) mod 7 = (r + 6) mod 7" .
  from r consider "r = 0" | "r = 1" | "r = 2" | "r = 3" | "r = 4" | "r = 5" | "r = 6" by linarith
  then have "r - (if r = 0 then - 6 else 1) = (r + 6) mod 7"
    by cases simp_all
  then show ?thesis unfolding e r_def[symmetric] by (simp split: if_splits)
qed

lemma getMondayOfWeek_eq:
  "getMondayOfWeek tza (Some d) =
     TimeClip (d - (Day (LocalTime tza d) + 3) mod 7 * msPerDay)"
proof -
  define n where "n = Day (LocalTime tza d)"
  have "- ((n + 4) mod 7) + (if (n + 4) mod 7 = 0 then - 6 else 1) = - ((n + 3) mod 7)"
    using monday_shift[of n] by linarith
  then have "d + (- ((n + 4) mod 7) + (if (n + 4) mod 7 = 0 then - 6 else 1)) * msPerDay =
      d - (n + 3) mod 7 * msPerDay"
    by simp
  then show ?thesis
    unfolding n_def by (simp add: getMondayOfWeek_def Let_def setDate_eq WeekDay_def)
qed

lemma getMondayOfWeek_valid:
  assumes "valid_date d" and "valid_date (d - 6 * msPerDay)"
  shows "getMondayOfWeek tza (Some d) = Some (d - (Day (LocalTime tza d) + 3) mod 7 * msPerDay)"
proof -
  define k where "k = (Day (LocalTime tza d) + 3) mod 7"
  have k: "0 \<le> k" "k \<le> 6" by (simp_all add: k_def)
  have "0 \<le> k * msPerDay" "k * msPerDay \<le> 6 * msPerDay" using k by (simp_all add: msPerDay_def)
  then have "valid_date (d - k * msPerDay)"
    using assms unfolding valid_date_def by linarith
  then show ?thesis unfolding getMondayOfWeek_eq k_def by (rule TimeClip_valid)
qed

lemma getMondayOfWeek_Day:
  assumes "getMondayOfWeek tza (Some d) = Some m"
  shows "Day (LocalTime tza m) = Day (LocalTime tza d) - (Day (LocalTime tza d) + 3) mod 7"
proof -
  have "m = d + (- ((Day (LocalTime tza d) + 3) mod 7)) * msPerDay"
    using assms unfolding getMondayOfWeek_eq by (simp add: TimeClip_def split: if_splits)
  then have "Day (LocalTime tza m) =
      Day (LocalTime tza d) + (- ((Day (LocalTime tza d) + 3) mod 7))"
    by (simp only: Day_shift)
  then show ?thesis by simp
qed

lemma week_span:
  fixes m n :: int
  assumes "(m + 4) mod 7 = 1" and "m \<le> n" and "n \<le> m + 6"
  shows "n - (n + 3) mod 7 = m"
proof -
  have "(m + 3) mod 7 = 0"
    using assms(1) monday_shift[of m] by (simp split: if_splits)
  then have "7 dvd m + 3" by (simp add: dvd_eq_mod_eq_0)
  then obtain k where k: "m + 3 = 7 * k" by (auto simp: dvd_def)
  have "n + 3 = (n - m) + 7 * k" using k by linarith
  then have "(n + 3) mod 7 = ((n - m) + 7 * k) mod 7" by (rule arg_cong)
  also have "\<dots> = (n - m) mod 7" by (rule mod_mult_self2)
  also have "\<dots> = n - m" using assms(2,3) by simp
  finally show ?thesis by simp
qed

lemma getWeekNumber_cong:
  assumes "Day (LocalTime tza a) = Day (LocalTime tza' b)"
  shows "getWeekNumber tza (Some a) = getWeekNumber tza' (Some b)"
  unfolding getWeekNumber_def Let_def option.case by (simp only: same_Day(1,2,3)[OF assms])

lemma getFullYear_cong:
  assumes "Day (LocalTime tza a) = Day (LocalTime tza' b)"
  shows "getFullYear tza (Some a) = getFullYear tza' (Some b)"
  unfolding getFullYear_def option.case by (simp only: same_Day(1)[OF assms])

lemma getWeekIdentifier_cong:
  assumes "getMondayOfWeek tza (Some d) = Some m" and "getMondayOfWeek tza' (Some d') = Some m'"
    and "Day (LocalTime tza d) = Day (LocalTime tza' d')"
  shows "getWeekIdentifier tza (Some d) = getWeekIdentifier tza' (Some d')"
proof -
  have m: "Day (LocalTime tza m) = Day (LocalTime tza' m')"
    by (simp only: getMondayOfWeek_Day[OF assms(1)] getMondayOfWeek_Day[OF assms(2)] assms(3))
  show ?thesis
    unfolding getWeekIdentifier_def Let_def assms(1,2)
    by (simp only: getFullYear_cong[OF m] getWeekNumber_cong[OF m])
qed

lemma TimeWithinDay_MakeDate0: "TimeWithinDay (MakeDate n 0) = 0"
  by (simp add: TimeWithinDay_def MakeDate_def)

lemma Day_MakeDate0: "Day (MakeDate n 0) = n"
  by (simp add: Day_MakeDate msPerDay_def)

lemma TimeClip_MakeDate0:
  assumes "- 100000000 \<le> n" and "n \<le> 100000000"
  shows "TimeClip (MakeDate n 0) = Some (MakeDate n 0)"
  using assms by (intro TimeClip_valid) (simp add: valid_date_def MakeDate_def msPerDay_def abs_le_iff)

lemma DayFromYear_1000: "DayFromYear 1000 = - 354285" "DayFromYear 10000 = 2932897"
  by (simp_all add: DayFromYear_def)

lemma getWeekNumber_Monday:
  assumes mon: "WeekDay (LocalTime tza date) = 1"
    and y: "1000 \<le> YearFromTime (LocalTime tza date)" "YearFromTime (LocalTime tza date) \<le> 9999"
  shows "getWeekNumber tza (Some date) =
     Some \<lceil>(real_of_int (DayWithinYear (MakeDate (Day (LocalTime tza date) + 3) 0)) + 1) / 7\<rceil>"
proof -
  define t where "t = LocalTime tza date"
  define n where "n = Day t"
  define d where "d = MakeDate (n + 3) 0"
  define yearStart where "yearStart = MakeDate (DayFromYear (YearFromTime d)) 0"
  have "DayFromYear (YearFromTime t) \<le> n" unfolding n_def by (rule YearFromTime_bracket)
  moreover have "DayFromYear 1000 \<le> DayFromYear (YearFromTime t)"
    using y(1) unfolding t_def[symmetric] by (rule DayFromYear_mono)
  ultimately have lo: "- 354285 \<le> n" by (simp add: DayFromYear_1000)
  have "n < DayFromYear (YearFromTime t + 1)" unfolding n_def by (rule YearFromTime_bracket)
  moreover have "DayFromYear (YearFromTime t + 1) \<le> DayFromYear 10000"
    using y(2) unfolding t_def[symmetric] by (intro DayFromYear_mono) simp
  ultimately have hi: "n < 2932897" by (simp add: DayFromYear_1000)
  have d0: "DateUTC (YearFromTime t) (MonthFromTime t) (DateFromTime t) = Some (MakeDate n 0)"
    using y(1) lo hi unfolding t_def[symmetric] n_def[symmetric]
    by (simp add: DateUTC_def MakeDay_of_time n_def[symmetric] TimeClip_MakeDate0)
  have w: "WeekDay (MakeDate n 0) = 1"
    using mon unfolding t_def[symmetric] by (simp add: WeekDay_def Day_MakeDate0 n_def)
  have d1: "setUTCDate (MakeDate n 0) (3 + DateFromTime (MakeDate n 0)) = Some d"
    using lo hi
    by (simp add: setUTCDate_def MakeDay_of_time Day_MakeDate0 TimeWithinDay_MakeDate0 d_def
        TimeClip_MakeDate0)
  have "DayFromYear 1000 \<le> Day d" using lo by (simp add: d_def Day_MakeDate0 DayFromYear_1000)
  then have y1: "1000 \<le> YearFromTime d" by (rule YearFromTime_ge)
  then have "DayFromYear 1000 \<le> DayFromYear (YearFromTime d)" by (rule DayFromYear_mono)
  moreover have "DayFromYear (YearFromTime d) \<le> n + 3"
    using YearFromTime_bracket(1)[of d] by (simp add: d_def Day_MakeDate0)
  ultimately have ys: "DateUTC (YearFromTime d) 0 1 = Some yearStart"
    using y1 hi by (simp add: DateUTC_def MakeDay_January yearStart_def TimeClip_MakeDate0 DayFromYear_1000)
  have dw: "DayWithinYear d = n + 3 - DayFromYear (YearFromTime d)"
    by (simp add: DayWithinYear_def d_def Day_MakeDate0)
  have "d - yearStart = DayWithinYear d * 86400000"
    unfolding yearStart_def dw by (simp add: d_def MakeDate_def msPerDay_def algebra_simps)
  then have e2: "real_of_int (d - yearStart) / 86400000 = real_of_int (DayWithinYear d)"
    by simp
  have "getWeekNumber tza (Some date) = Some \<lceil>(real_of_int (d - yearStart) / 86400000 + 1) / 7\<rceil>"
    unfolding getWeekNumber_def Let_def option.case t_def[symmetric] d0 w
    by (simp add: d1 ys)
  then show ?thesis unfolding e2 unfolding d_def n_def t_def .
qed

section \<open>The week number and the week identifier\<close>

lemma week_number_range:
  assumes "0 \<le> k" and "k \<le> 366"
  shows "1 \<le> \<lceil>(real_of_int k + 1) / 7\<rceil>" and "\<lceil>(real_of_int k + 1) / 7\<rceil> \<le> 53"
proof -
  have "0 < (real_of_int k + 1) / 7" using assms(1) by simp
  then have "0 < \<lceil>(real_of_int k + 1) / 7\<rceil>" by (simp add: less_ceiling_iff)
  then show "1 \<le> \<lceil>(real_of_int k + 1) / 7\<rceil>" by simp
  have "(real_of_int k + 1) / 7 \<le> real_of_int 53" using assms(2) by simp
  then show "\<lceil>(real_of_int k + 1) / 7\<rceil> \<le> 53" by (simp add: ceiling_le_iff)
qed

lemma getMondayOfWeek_WeekDay:
  assumes "getMondayOfWeek tza (Some d) = Some m"
  shows "WeekDay (LocalTime tza m) = 1"
proof -
  define n where "n = Day (LocalTime tza d)"
  have "n + 3 = 7 * ((n + 3) div 7) + (n + 3) mod 7" by simp
  then have "n - (n + 3) mod 7 + 4 = 1 + 7 * ((n + 3) div 7)" by linarith
  then have "(n - (n + 3) mod 7 + 4) mod 7 = (1 + 7 * ((n + 3) div 7)) mod 7" by (rule arg_cong)
  also have "\<dots> = 1 mod 7" by (rule mod_mult_self2)
  finally show ?thesis by (simp add: WeekDay_def getMondayOfWeek_Day[OF assms] n_def)
qed

lemma digits_small: "n < 10 \<Longrightarrow> digits n = [char_of (48 + n)]"
  by (simp add: digits.simps)

lemma digits_large: "10 \<le> n \<Longrightarrow> digits n = digits (n div 10) @ [char_of (48 + n mod 10)]"
  by (subst digits.simps) simp

lemma isDigit_char_of: "k < 10 \<Longrightarrow> isDigit (char_of (48 + k :: nat))"
  by (simp add: isDigit_def)

lemma digits_all: "list_all isDigit (digits n)"
proof (induction n rule: digits.induct)
  case (1 n)
  show ?case
  proof (cases "n < 10")
    case True
    then show ?thesis by (simp add: digits_small isDigit_char_of)
  next
    case False
    with 1 show ?thesis by (simp add: digits_large isDigit_char_of)
  qed
qed

lemma digits_length:
  shows "n < 10 \<Longrightarrow> length (digits n) = 1"
    and "10 \<le> n \<Longrightarrow> n < 100 \<Longrightarrow> length (digits n) = 2"
    and "1000 \<le> n \<Longrightarrow> n < 10000 \<Longrightarrow> length (digits n) = 4"
proof -
  show 1: "length (digits n) = 1" if "n < 10" for n using that by (simp add: digits_small)
  show 2: "length (digits n) = 2" if "10 \<le> n" "n < 100" for n
    using that 1[of "n div 10"] by (simp add: digits_large)
  have 3: "length (digits n) = 3" if "100 \<le> n" "n < 1000" for n
    using that 2[of "n div 10"] by (simp add: digits_large)
  show "length (digits n) = 4" if "1000 \<le> n" "n < 10000" for n
    using that 3[of "n div 10"] by (simp add: digits_large)
qed

lemma digit_chars:
  "char_of (48 :: nat) = CHR ''0''" "char_of (49 :: nat) = CHR ''1''" "char_of (50 :: nat) = CHR ''2''"
  "char_of (51 :: nat) = CHR ''3''" "char_of (52 :: nat) = CHR ''4''" "char_of (53 :: nat) = CHR ''5''"
  "char_of (54 :: nat) = CHR ''6''" "char_of (55 :: nat) = CHR ''7''" "char_of (56 :: nat) = CHR ''8''"
  "char_of (57 :: nat) = CHR ''9''"
  by code_simp+

lemma week_pattern_parts:
  assumes "length ys = 4" "list_all isDigit ys" "length ws = 2" "list_all isDigit ws"
  shows "week_pattern (ys @ ''-W'' @ ws)"
  using assms by (simp add: week_pattern_def nth_append)

lemma week_number_string:
  assumes "1 \<le> w" "w \<le> 53"
  shows "length (padStart 2 (CHR ''0'') (NumberToString w)) = 2"
    and "list_all isDigit (padStart 2 (CHR ''0'') (NumberToString w))"
proof -
  have n: "NumberToString w = digits (nat w)" using assms by (simp add: NumberToString_def)
  have "length (padStart 2 (CHR ''0'') (NumberToString w)) = 2 \<and>
      list_all isDigit (padStart 2 (CHR ''0'') (NumberToString w))"
  proof (cases "w < 10")
    case True
    then have "length (digits (nat w)) = 1" using assms by (intro digits_length(1)) simp
    then show ?thesis by (simp add: n padStart_def digits_all isDigit_def)
  next
    case False
    then have "length (digits (nat w)) = 2" using assms by (intro digits_length(2)) simp_all
    then show ?thesis by (simp add: n padStart_def digits_all)
  qed
  then show "length (padStart 2 (CHR ''0'') (NumberToString w)) = 2"
    and "list_all isDigit (padStart 2 (CHR ''0'') (NumberToString w))" by simp_all
qed

lemma year_string:
  assumes "1000 \<le> y" "y \<le> 9999"
  shows "length (NumberToString y) = 4" and "list_all isDigit (NumberToString y)"
proof -
  have n: "NumberToString y = digits (nat y)" using assms by (simp add: NumberToString_def)
  show "length (NumberToString y) = 4" unfolding n using assms by (intro digits_length(3)) simp_all
  show "list_all isDigit (NumberToString y)" unfolding n by (rule digits_all)
qed

lemma getWeekIdentifier_pattern:
  assumes "getFullYear tza (getMondayOfWeek tza (Some d)) = Some y" and "1000 \<le> y" and "y \<le> 9999"
  shows "week_pattern (getWeekIdentifier tza (Some d))"
proof -
  from assms(1) obtain monday where m: "getMondayOfWeek tza (Some d) = Some monday"
    by (cases "getMondayOfWeek tza (Some d)") (simp_all add: getFullYear_def)
  have y: "YearFromTime (LocalTime tza monday) = y"
    using assms(1) by (simp add: m getFullYear_def)
  have "getWeekNumber tza (Some monday) =
      Some \<lceil>(real_of_int (DayWithinYear (MakeDate (Day (LocalTime tza monday) + 3) 0)) + 1) / 7\<rceil>"
    using assms(2,3) by (intro getWeekNumber_Monday getMondayOfWeek_WeekDay[OF m]) (simp_all add: y)
  then obtain w where w: "getWeekNumber tza (Some monday) = Some w" "1 \<le> w" "w \<le> 53"
    using week_number_range[OF DayWithinYear_bounds] by simp
  have "week_pattern (NumberToString y @ ''-W'' @ padStart 2 (CHR ''0'') (NumberToString w))"
    using assms(2,3) w(2,3) by (intro week_pattern_parts year_string week_number_string)
  then show ?thesis by (simp add: getWeekIdentifier_def Let_def m w(1) getFullYear_def y ToString_def)
qed

lemma getWeekIdentifier_span:
  assumes "valid_date d" "valid_date (d - 6 * msPerDay)"
    and "valid_date d'" "valid_date (d' - 6 * msPerDay)"
    and "WeekDay (LocalTime tza m) = 1"
    and "Day (LocalTime tza m) \<le> Day (LocalTime tza d)" "Day (LocalTime tza d) \<le> Day (LocalTime tza m) + 6"
    and "Day (LocalTime tza m) \<le> Day (LocalTime tza d')" "Day (LocalTime tza d') \<le> Day (LocalTime tza m) + 6"
  shows "getWeekIdentifier tza (Some d) = getWeekIdentifier tza (Some d')"
proof -
  note a = getMondayOfWeek_valid[OF assms(1,2), of tza]
  note b = getMondayOfWeek_valid[OF assms(3,4), of tza]
  have mon: "(Day (LocalTime tza m) + 4) mod 7 = 1" using assms(5) by (simp add: WeekDay_def)
  have "Day (LocalTime tza d) - (Day (LocalTime tza d) + 3) mod 7 = Day (LocalTime tza m)"
    using mon assms(6,7) by (rule week_span)
  moreover have "Day (LocalTime tza d') - (Day (LocalTime tza d') + 3) mod 7 = Day (LocalTime tza m)"
    using mon assms(8,9) by (rule week_span)
  ultimately have m: "Day (LocalTime tza (d - (Day (LocalTime tza d) + 3) mod 7 * msPerDay)) =
      Day (LocalTime tza (d' - (Day (LocalTime tza d') + 3) mod 7 * msPerDay))"
    by (simp only: getMondayOfWeek_Day[OF a] getMondayOfWeek_Day[OF b])
  show ?thesis
    unfolding getWeekIdentifier_def Let_def a b
    by (simp only: getFullYear_cong[OF m] getWeekNumber_cong[OF m])
qed

lemma getWeekIdentifier_local_day:
  assumes "0 \<le> ms" "ms < msPerDay" "\<bar>tza\<bar> < msPerDay" "- 99999990 \<le> n" "n \<le> 99999990"
  shows "getWeekIdentifier tza (Some (UTC tza (MakeDate n ms))) =
     getWeekIdentifier 0 (Some (MakeDate n 0))"
proof -
  have n: "- 8639999136000000 \<le> n * msPerDay" "n * msPerDay \<le> 8639999136000000"
    using assms(4,5) by (simp_all add: msPerDay_def)
  have v: "valid_date (UTC tza (MakeDate n ms))" "valid_date (UTC tza (MakeDate n ms) - 6 * msPerDay)"
    using assms(1,2,3) n unfolding valid_date_def UTC_def MakeDate_def msPerDay_def by linarith+
  have v0: "valid_date (MakeDate n 0)" "valid_date (MakeDate n 0 - 6 * msPerDay)"
    using n unfolding valid_date_def MakeDate_def msPerDay_def by linarith+
  have "Day (LocalTime tza (UTC tza (MakeDate n ms))) = n"
    using assms(1,2) by (simp add: LocalTime_UTC Day_MakeDate)
  moreover have "Day (LocalTime 0 (MakeDate n 0)) = n"
    by (simp add: LocalTime_def Day_MakeDate0)
  ultimately have "Day (LocalTime tza (UTC tza (MakeDate n ms))) = Day (LocalTime 0 (MakeDate n 0))"
    by simp
  with getMondayOfWeek_valid[OF v] getMondayOfWeek_valid[OF v0]
  show ?thesis by (rule getWeekIdentifier_cong)
qed

text \<open>
  Claim C3. On January 1, 2024, a Monday, at any time of the day and in any time zone (an
  offset of less than a day), \<open>getWeekIdentifier\<close> gives \<open>2024-W01\<close>; on January 1, 2023, a
  Sunday, it gives \<open>2022-W52\<close>.
\<close>

theorem getWeekIdentifier_examples:
  "0 \<le> ms \<and> ms < msPerDay \<and> \<bar>tza\<bar> < msPerDay \<longrightarrow>
     getWeekIdentifier tza (Some (UTC tza (MakeDate (MakeDay 2024 0 1) ms))) = ''2024-W01'' \<and>
     WeekDay (MakeDate (MakeDay 2024 0 1) ms) = 1 \<and>
     getWeekIdentifier tza (Some (UTC tza (MakeDate (MakeDay 2023 0 1) ms))) = ''2022-W52'' \<and>
     WeekDay (MakeDate (MakeDay 2023 0 1) ms) = 0"
proof
  assume ms: "0 \<le> ms \<and> ms < msPerDay \<and> \<bar>tza\<bar> < msPerDay"
  have a: "getWeekIdentifier 0 (Some (MakeDate (MakeDay 2024 0 1) 0)) = ''2024-W01''" by code_simp
  have b: "getWeekIdentifier 0 (Some (MakeDate (MakeDay 2023 0 1) 0)) = ''2022-W52''" by code_simp
  have c: "(MakeDay 2024 0 1 + 4) mod 7 = 1" "(MakeDay 2023 0 1 + 4) mod 7 = 0" by code_simp+
  have n: "- 99999990 \<le> MakeDay 2024 0 1" "MakeDay 2024 0 1 \<le> 99999990"
    "- 99999990 \<le> MakeDay 2023 0 1" "MakeDay 2023 0 1 \<le> 99999990"
    by code_simp+
  show "getWeekIdentifier tza (Some (UTC tza (MakeDate (MakeDay 2024 0 1) ms))) = ''2024-W01'' \<and>
     WeekDay (MakeDate (MakeDay 2024 0 1) ms) = 1 \<and>
     getWeekIdentifier tza (Some (UTC tza (MakeDate (MakeDay 2023 0 1) ms))) = ''2022-W52'' \<and>
     WeekDay (MakeDate (MakeDay 2023 0 1) ms) = 0"
    using ms a b c n by (simp add: getWeekIdentifier_local_day WeekDay_def Day_MakeDate)
qed

theorem getWeekIdentifier_examples_witness:
  "getWeekIdentifier 3600000 (Some (UTC 3600000 (MakeDate (MakeDay 2024 0 1) 43200000))) = ''2024-W01'' \<and>
   getWeekIdentifier 3600000 (Some (UTC 3600000 (MakeDate (MakeDay 2023 0 1) 43200000))) = ''2022-W52''"
  using getWeekIdentifier_examples[of 43200000 3600000] by (simp add: msPerDay_def)

text \<open>
  Claim C2, as amended. When the Monday of the week of \<open>d\<close> lies in the years 1000 to 9999,
  \<open>getWeekIdentifier(d)\<close> matches \<open>^\d{4}-W\d{2}$\<close>. For valid dates at least six days after
  the earliest valid date, \<open>getWeekIdentifier\<close> gives the same string for all dates of a
  week: for a Monday \<open>m\<close> and two such dates \<open>d\<close> and \<open>d'\<close> among the seven days from \<open>m\<close>, the
  identifiers are equal.
\<close>

theorem getWeekIdentifier_week:
  "(getFullYear tza (getMondayOfWeek tza (Some d)) = Some y \<and> 1000 \<le> y \<and> y \<le> 9999
      \<longrightarrow> week_pattern (getWeekIdentifier tza (Some d))) \<and>
   (valid_date d \<and> valid_date (d - 6 * msPerDay) \<and>
    valid_date d' \<and> valid_date (d' - 6 * msPerDay) \<and>
    WeekDay (LocalTime tza m) = 1 \<and>
    Day (LocalTime tza m) \<le> Day (LocalTime tza d) \<and>
    Day (LocalTime tza d) \<le> Day (LocalTime tza m) + 6 \<and>
    Day (LocalTime tza m) \<le> Day (LocalTime tza d') \<and>
    Day (LocalTime tza d') \<le> Day (LocalTime tza m) + 6
      \<longrightarrow> getWeekIdentifier tza (Some d) = getWeekIdentifier tza (Some d'))"
  using getWeekIdentifier_pattern[of tza d y] getWeekIdentifier_span[of d d' tza m] by blast

theorem getWeekIdentifier_week_witness:
  "week_pattern (getWeekIdentifier 0 (Some (MakeDate (MakeDay 2026 10 4) 0))) \<and>
   getWeekIdentifier 0 (Some (MakeDate (MakeDay 2026 10 4) 0)) =
   getWeekIdentifier 0 (Some (MakeDate (MakeDay 2026 10 8) 86399999))"
proof -
  have y: "getFullYear 0 (getMondayOfWeek 0 (Some (MakeDate (MakeDay 2026 10 4) 0))) = Some 2026"
    by code_simp
  have m: "WeekDay (LocalTime 0 (MakeDate (MakeDay 2026 10 2) 0)) = 1" by code_simp
  have d: "Day (LocalTime 0 (MakeDate (MakeDay 2026 10 2) 0)) = 20759"
    "Day (LocalTime 0 (MakeDate (MakeDay 2026 10 4) 0)) = 20761"
    "Day (LocalTime 0 (MakeDate (MakeDay 2026 10 8) 86399999)) = 20765"
    by code_simp+
  have v: "valid_date (MakeDate (MakeDay 2026 10 4) 0)"
    "valid_date (MakeDate (MakeDay 2026 10 4) 0 - 6 * msPerDay)"
    "valid_date (MakeDate (MakeDay 2026 10 8) 86399999)"
    "valid_date (MakeDate (MakeDay 2026 10 8) 86399999 - 6 * msPerDay)"
    by code_simp+
  note w = getWeekIdentifier_week[where tza = 0 and d = "MakeDate (MakeDay 2026 10 4) 0"
      and y = 2026 and m = "MakeDate (MakeDay 2026 10 2) 0"
      and d' = "MakeDate (MakeDay 2026 10 8) 86399999"]
  have p: "week_pattern (getWeekIdentifier 0 (Some (MakeDate (MakeDay 2026 10 4) 0)))"
    using w[THEN conjunct1] by (simp add: y)
  have e: "getWeekIdentifier 0 (Some (MakeDate (MakeDay 2026 10 4) 0)) =
      getWeekIdentifier 0 (Some (MakeDate (MakeDay 2026 10 8) 86399999))"
    using w[THEN conjunct2] by (simp add: m d v)
  show ?thesis by (intro conjI p e)
qed

text \<open>
  Claim C2 as stated fails for a year of fewer than four digits: on June 15 of the year
  999 the identifier is \<open>999-W24\<close>. It also fails in the first week of valid dates. The
  earliest valid date is a Tuesday. Five hours west of Greenwich, 10:00 and 20:00 of that
  Tuesday are valid dates; the same time on the Monday is a valid date for 20:00 only, so
  the identifier of the first is \<open>NaN-WNaN\<close>, and that of the second is \<open>-271821-WNaN\<close>
  (the week number is \<open>NaN\<close> because \<open>Date.UTC\<close> of that Monday is out of range).
\<close>

theorem getWeekIdentifier_week_counterexample:
  "valid_date (MakeDate (MakeDay 999 5 15) 0) \<and>
   \<not> week_pattern (getWeekIdentifier 0 (Some (MakeDate (MakeDay 999 5 15) 0))) \<and>
   valid_date (- 8640000000000000 + 15 * 3600000) \<and>
   valid_date (- 8640000000000000 + 25 * 3600000) \<and>
   Day (LocalTime (- 18000000) (- 8640000000000000 + 15 * 3600000)) = - 100000000 \<and>
   Day (LocalTime (- 18000000) (- 8640000000000000 + 25 * 3600000)) = - 100000000 \<and>
   getWeekIdentifier (- 18000000) (Some (- 8640000000000000 + 15 * 3600000)) = ''NaN-WNaN'' \<and>
   getWeekIdentifier (- 18000000) (Some (- 8640000000000000 + 25 * 3600000)) = ''-271821-WNaN''"
proof -
  have a: "valid_date (MakeDate (MakeDay 999 5 15) 0)"
    "\<not> week_pattern (getWeekIdentifier 0 (Some (MakeDate (MakeDay 999 5 15) 0)))"
    by code_simp+
  have b: "valid_date (- 8640000000000000 + 15 * 3600000)"
    "valid_date (- 8640000000000000 + 25 * 3600000)"
    by (simp_all add: valid_date_def)
  have c: "Day (LocalTime (- 18000000) (- 8640000000000000 + 15 * 3600000)) = - 100000000"
    "Day (LocalTime (- 18000000) (- 8640000000000000 + 25 * 3600000)) = - 100000000"
    by code_simp+
  have d: "getWeekIdentifier (- 18000000) (Some (- 8640000000000000 + 15 * 3600000)) = ''NaN-WNaN''"
    by code_simp
  have m: "getMondayOfWeek (- 18000000) (Some (- 8640000000000000 + 25 * 3600000)) =
      Some (- 8640000000000000 + 3600000)"
    by code_simp
  have y: "getFullYear (- 18000000) (Some (- 8640000000000000 + 3600000)) = Some (- 271821)"
    by code_simp
  have w: "getWeekNumber (- 18000000) (Some (- 8640000000000000 + 3600000)) = None"
    by code_simp
  have e: "getWeekIdentifier (- 18000000) (Some (- 8640000000000000 + 25 * 3600000)) = ''-271821-WNaN''"
    unfolding getWeekIdentifier_def Let_def m y w
    by (simp add: ToString_def NumberToString_def digits_large digits_small digit_chars padStart_def)
  show ?thesis by (intro conjI a b c d e)
qed

text \<open>
  Claim C1 says that the year of the identifier is the calendar year of the Thursday of the
  week (the ISO week-numbering year). The code pairs the ISO week number with the calendar
  year of the Monday. December 30, 2024 is a Monday; the Thursday of its week is January 2,
  2025, so the week is week 1 of the ISO year 2025. In every time zone (an offset of less
  than a day) \<open>getWeekIdentifier\<close> gives \<open>2024-W01\<close>, the identifier it also gives for the
  week of January 1, 2024.
\<close>

theorem getWeekIdentifier_year_of_Monday:
  "\<bar>tza\<bar> < msPerDay \<longrightarrow>
   getWeekIdentifier tza (Some (UTC tza (MakeDate (MakeDay 2024 11 30) 0))) = ''2024-W01'' \<and>
   WeekDay (MakeDate (MakeDay 2024 11 30) 0) = 1 \<and>
   WeekDay (MakeDate (MakeDay 2024 11 30 + 3) 0) = 4 \<and>
   YearFromTime (MakeDate (MakeDay 2024 11 30 + 3) 0) = 2025 \<and>
   getWeekIdentifier tza (Some (UTC tza (MakeDate (MakeDay 2024 0 1) 0))) = ''2024-W01''"
proof
  assume z: "\<bar>tza\<bar> < msPerDay"
  have a: "getWeekIdentifier 0 (Some (MakeDate (MakeDay 2024 11 30) 0)) = ''2024-W01''" by code_simp
  have b: "getWeekIdentifier 0 (Some (MakeDate (MakeDay 2024 0 1) 0)) = ''2024-W01''" by code_simp
  have c: "WeekDay (MakeDate (MakeDay 2024 11 30) 0) = 1"
    "WeekDay (MakeDate (MakeDay 2024 11 30 + 3) 0) = 4"
    "YearFromTime (MakeDate (MakeDay 2024 11 30 + 3) 0) = 2025"
    by code_simp+
  have n: "- 99999990 \<le> MakeDay 2024 11 30" "MakeDay 2024 11 30 \<le> 99999990"
    "- 99999990 \<le> MakeDay 2024 0 1" "MakeDay 2024 0 1 \<le> 99999990"
    by code_simp+
  show "getWeekIdentifier tza (Some (UTC tza (MakeDate (MakeDay 2024 11 30) 0))) = ''2024-W01'' \<and>
   WeekDay (MakeDate (MakeDay 2024 11 30) 0) = 1 \<and>
   WeekDay (MakeDate (MakeDay 2024 11 30 + 3) 0) = 4 \<and>
   YearFromTime (MakeDate (MakeDay 2024 11 30 + 3) 0) = 2025 \<and>
   getWeekIdentifier tza (Some (UTC tza (MakeDate (MakeDay 2024 0 1) 0))) = ''2024-W01''"
    using z a b c n by (simp add: getWeekIdentifier_local_day msPerDay_def)
qed

theorem getWeekIdentifier_year_of_Monday_witness:
  "getWeekIdentifier (- 18000000) (Some (UTC (- 18000000) (MakeDate (MakeDay 2024 11 30) 0)))
     = ''2024-W01'' \<and>
   YearFromTime (MakeDate (MakeDay 2024 11 30 + 3) 0) = 2025 \<and>
   getWeekIdentifier (- 18000000) (Some (UTC (- 18000000) (MakeDate (MakeDay 2024 0 1) 0)))
     = ''2024-W01''"
  using getWeekIdentifier_year_of_Monday[of "- 18000000"] by (simp add: msPerDay_def)

end
